theory Spec2Isabelle
  imports Complex_Main
begin

section \<open>JavaScript values used by script.js\<close>

text \<open>
  A JavaScript Number is NaN, an infinity, or a finite value. Finite values are idealised
  as reals: rounding to binary64, overflow and the sign of zero are outside this model.
  \<open>Infinity True\<close> is \<open>+Infinity\<close>, \<open>Infinity False\<close> is \<open>-Infinity\<close>.
\<close>

datatype jsnum = NaN | Num real | Infinity bool

text \<open>The values that reach \<open>updateMap\<close> and the year label: a string (the slider's
  \<open>this.value\<close>), a number, or \<open>undefined\<close>.\<close>

datatype jsval = JUndefined | JNumber jsnum | JString string

subsection \<open>String to Number conversion (unary plus, loose equality)\<close>

text \<open>
  \<open>StringToNumber\<close> follows the StringNumericLiteral grammar of ECMAScript: surrounding
  white space is dropped, the empty text is \<open>0\<close>, then a radix-prefixed integer or a
  signed decimal literal is read, and anything else is NaN. Characters are the 8-bit
  \<open>char\<close> of HOL, so the white-space characters above U+00FF do not occur.
\<close>

definition StrWhiteSpaceChar :: "char \<Rightarrow> bool" where
  "StrWhiteSpaceChar c \<longleftrightarrow>
     c = CHR 0x09 \<or> c = CHR 0x0A \<or> c = CHR 0x0B \<or> c = CHR 0x0C \<or> c = CHR 0x0D \<or>
     c = CHR 0x20 \<or> c = CHR 0xA0"

definition trim_ws :: "string \<Rightarrow> string" where
  "trim_ws s = rev (dropWhile StrWhiteSpaceChar (rev (dropWhile StrWhiteSpaceChar s)))"

definition DecimalDigit :: "char \<Rightarrow> nat option" where
  "DecimalDigit = map_of
     [(CHR ''0'', 0), (CHR ''1'', 1), (CHR ''2'', 2), (CHR ''3'', 3), (CHR ''4'', 4),
      (CHR ''5'', 5), (CHR ''6'', 6), (CHR ''7'', 7), (CHR ''8'', 8), (CHR ''9'', 9)]"

definition HexDigit :: "char \<Rightarrow> nat option" where
  "HexDigit = map_of
     [(CHR ''0'', 0), (CHR ''1'', 1), (CHR ''2'', 2), (CHR ''3'', 3), (CHR ''4'', 4),
      (CHR ''5'', 5), (CHR ''6'', 6), (CHR ''7'', 7), (CHR ''8'', 8), (CHR ''9'', 9),
      (CHR ''a'', 10), (CHR ''b'', 11), (CHR ''c'', 12), (CHR ''d'', 13), (CHR ''e'', 14),
      (CHR ''f'', 15), (CHR ''A'', 10), (CHR ''B'', 11), (CHR ''C'', 12), (CHR ''D'', 13),
      (CHR ''E'', 14), (CHR ''F'', 15)]"

definition OctalDigit :: "char \<Rightarrow> nat option" where
  "OctalDigit = map_of
     [(CHR ''0'', 0), (CHR ''1'', 1), (CHR ''2'', 2), (CHR ''3'', 3), (CHR ''4'', 4),
      (CHR ''5'', 5), (CHR ''6'', 6), (CHR ''7'', 7)]"

definition BinaryDigit :: "char \<Rightarrow> nat option" where
  "BinaryDigit = map_of [(CHR ''0'', 0), (CHR ''1'', 1)]"

definition is_dec :: "char \<Rightarrow> bool" where
  "is_dec c \<longleftrightarrow> DecimalDigit c \<noteq> None"

definition digits_value :: "nat \<Rightarrow> nat list \<Rightarrow> nat" where
  "digits_value radix ds = foldl (\<lambda>n d. n * radix + d) 0 ds"

text \<open>One or more digits of the given class, and nothing else.\<close>

definition all_digits :: "(char \<Rightarrow> nat option) \<Rightarrow> string \<Rightarrow> nat list option" where
  "all_digits dig s = (if s = [] then None else those (map dig s))"

definition dec_value :: "string \<Rightarrow> nat" where
  "dec_value s = digits_value 10 (map (\<lambda>c. case DecimalDigit c of None \<Rightarrow> 0 | Some d \<Rightarrow> d) s)"

definition NonDecimalIntegerLiteral :: "string \<Rightarrow> real option" where
  "NonDecimalIntegerLiteral s =
     (case s of
        c0 # c1 # rest \<Rightarrow>
          if c0 \<noteq> CHR ''0'' then None
          else if c1 = CHR ''x'' \<or> c1 = CHR ''X'' then
            map_option (\<lambda>ds. real (digits_value 16 ds)) (all_digits HexDigit rest)
          else if c1 = CHR ''o'' \<or> c1 = CHR ''O'' then
            map_option (\<lambda>ds. real (digits_value 8 ds)) (all_digits OctalDigit rest)
          else if c1 = CHR ''b'' \<or> c1 = CHR ''B'' then
            map_option (\<lambda>ds. real (digits_value 2 ds)) (all_digits BinaryDigit rest)
          else None
      | _ \<Rightarrow> None)"

text \<open>The text after the mantissa: nothing, or \<open>e\<close>/\<open>E\<close>, an optional sign and digits.\<close>

definition ExponentPart :: "string \<Rightarrow> int option" where
  "ExponentPart s =
     (case s of
        [] \<Rightarrow> Some 0
      | e # r \<Rightarrow>
          if e = CHR ''e'' \<or> e = CHR ''E'' then
            (case r of
               [] \<Rightarrow> None
             | c # ds \<Rightarrow>
                 if c = CHR ''+'' then
                   map_option (\<lambda>d. int (digits_value 10 d)) (all_digits DecimalDigit ds)
                 else if c = CHR ''-'' then
                   map_option (\<lambda>d. - int (digits_value 10 d)) (all_digits DecimalDigit ds)
                 else map_option (\<lambda>d. int (digits_value 10 d)) (all_digits DecimalDigit r))
          else None)"

definition scale10 :: "real \<Rightarrow> int \<Rightarrow> real" where
  "scale10 m e = (if 0 \<le> e then m * 10 ^ nat e else m / 10 ^ nat (- e))"

definition StrUnsignedDecimalLiteral :: "string \<Rightarrow> real option" where
  "StrUnsignedDecimalLiteral s =
     (let ip = takeWhile is_dec s;
          r1 = dropWhile is_dec s;
          has_dot = (r1 \<noteq> [] \<and> hd r1 = CHR ''.'');
          fp = (if has_dot then takeWhile is_dec (tl r1) else []);
          r2 = (if has_dot then dropWhile is_dec (tl r1) else r1)
      in if ip = [] \<and> fp = [] then None
         else case ExponentPart r2 of
                None \<Rightarrow> None
              | Some e \<Rightarrow>
                  Some (scale10 (real (dec_value ip) + real (dec_value fp) / 10 ^ length fp) e))"

definition StrDecimalLiteral :: "string \<Rightarrow> jsnum" where
  "StrDecimalLiteral s =
     (let neg = (s \<noteq> [] \<and> hd s = CHR ''-'');
          signed = (s \<noteq> [] \<and> (hd s = CHR ''+'' \<or> hd s = CHR ''-''));
          body = (if signed then tl s else s)
      in if body = ''Infinity'' then Infinity (\<not> neg)
         else case StrUnsignedDecimalLiteral body of
                None \<Rightarrow> NaN
              | Some v \<Rightarrow> Num (if neg then - v else v))"

definition StringToNumber :: "string \<Rightarrow> jsnum" where
  "StringToNumber s =
     (let t = trim_ws s
      in if t = [] then Num 0
         else case NonDecimalIntegerLiteral t of
                Some v \<Rightarrow> Num v
              | None \<Rightarrow> StrDecimalLiteral t)"

fun ToNumber :: "jsval \<Rightarrow> jsnum" where
  "ToNumber JUndefined = NaN"
| "ToNumber (JNumber n) = n"
| "ToNumber (JString s) = StringToNumber s"

text \<open>Equality of two Numbers: NaN equals nothing, not even itself.\<close>

fun num_equal :: "jsnum \<Rightarrow> jsnum \<Rightarrow> bool" where
  "num_equal NaN _ = False"
| "num_equal _ NaN = False"
| "num_equal a b = (a = b)"

text \<open>\<open>x == y\<close> where \<open>x\<close> is a Number: a Number is compared as such, a String is converted
  first, and \<open>undefined\<close> is loosely equal to no Number.\<close>

fun loose_eq_num :: "jsnum \<Rightarrow> jsval \<Rightarrow> bool" where
  "loose_eq_num x JUndefined = False"
| "loose_eq_num x (JNumber y) = num_equal x y"
| "loose_eq_num x (JString s) = num_equal x (StringToNumber s)"

text \<open>\<open>a - b\<close> on Numbers.\<close>

fun js_sub :: "jsnum \<Rightarrow> jsnum \<Rightarrow> jsnum" where
  "js_sub NaN _ = NaN"
| "js_sub _ NaN = NaN"
| "js_sub (Num a) (Num b) = Num (a - b)"
| "js_sub (Num a) (Infinity s) = Infinity (\<not> s)"
| "js_sub (Infinity s) (Num b) = Infinity s"
| "js_sub (Infinity s) (Infinity t) = (if s = t then NaN else Infinity s)"

text \<open>\<open>a + b\<close> on Numbers.\<close>

fun js_add :: "jsnum \<Rightarrow> jsnum \<Rightarrow> jsnum" where
  "js_add NaN _ = NaN"
| "js_add _ NaN = NaN"
| "js_add (Num a) (Num b) = Num (a + b)"
| "js_add (Num a) (Infinity s) = Infinity s"
| "js_add (Infinity s) (Num b) = Infinity s"
| "js_add (Infinity s) (Infinity t) = (if s = t then Infinity s else NaN)"

section \<open>The radius scale\<close>

text \<open>
  \<open>d3.scaleSqrt().domain([0,50]).range([0,25])\<close> is d3's power scale with exponent 1/2 and
  no clamping. The scale maps \<open>x\<close> to \<open>r0 + (r1 - r0) * t\<close> with
  \<open>t = (raise x - raise d0) / (raise d1 - raise d0)\<close>, where \<open>raise\<close> is the square root
  made odd: \<open>x < 0 ? -Math.sqrt(-x) : Math.sqrt(x)\<close>. NaN and the infinities pass through
  the arithmetic unchanged.
\<close>

definition raise :: "real \<Rightarrow> real" where
  "raise x = (if x < 0 then - sqrt (- x) else sqrt x)"

definition scaleSqrt :: "real \<Rightarrow> real \<Rightarrow> real \<Rightarrow> real \<Rightarrow> jsnum \<Rightarrow> jsnum" where
  "scaleSqrt d0 d1 r0 r1 v =
     (case v of
        NaN \<Rightarrow> NaN
      | Infinity s \<Rightarrow> Infinity s
      | Num x \<Rightarrow> Num (r0 + (r1 - r0) * ((raise x - raise d0) / (raise d1 - raise d0))))"

definition rScale :: "jsnum \<Rightarrow> jsnum" where
  "rScale = scaleSqrt 0 50 0 25"

text \<open>\<open>a <= b\<close> and \<open>v > 0\<close> on Numbers: every comparison with NaN is false.\<close>

fun js_le :: "jsnum \<Rightarrow> jsnum \<Rightarrow> bool" where
  "js_le NaN _ = False"
| "js_le _ NaN = False"
| "js_le (Num a) (Num b) = (a \<le> b)"
| "js_le (Num a) (Infinity s) = s"
| "js_le (Infinity s) (Num b) = (\<not> s)"
| "js_le (Infinity s) (Infinity t) = (t \<or> \<not> s)"

fun js_gt0 :: "jsnum \<Rightarrow> bool" where
  "js_gt0 NaN = False"
| "js_gt0 (Num a) = (0 < a)"
| "js_gt0 (Infinity s) = s"

section \<open>Rows and incidents\<close>

text \<open>
  d3.csv hands each row to \<open>parseCSV\<close> as an object from column names to the cell texts.
  Reading a column the file does not have gives \<open>undefined\<close>, here \<open>None\<close>.
\<close>

type_synonym row = "string \<rightharpoonup> string"

record incident =
  d_id :: "string option"
  d_location :: "string option"
  d_latitude :: jsnum
  d_longitude :: jsnum
  d_victims :: jsnum
  d_date :: "int option"
  d_year :: jsnum

text \<open>Unary plus on a cell: \<open>+undefined\<close> is NaN, \<open>+text\<close> converts the text.\<close>

definition unary_plus :: "string option \<Rightarrow> jsnum" where
  "unary_plus v = (case v of None \<Rightarrow> NaN | Some s \<Rightarrow> StringToNumber s)"

text \<open>
  \<open>new Date(v)\<close>: the time value in milliseconds, or \<open>None\<close> for an Invalid
  Date. How a text is read as a date is left to the engine beyond the ISO format, so
  \<open>Date_parse\<close> is a parameter; \<open>new Date(undefined)\<close> is an Invalid Date.
\<close>

definition new_Date :: "(string \<Rightarrow> int option) \<Rightarrow> string option \<Rightarrow> int option" where
  "new_Date Date_parse v = (case v of None \<Rightarrow> None | Some s \<Rightarrow> Date_parse s)"

text \<open>\<open>getFullYear\<close>: NaN for an Invalid Date, else the calendar year of the time value
  in the local time zone, which the parameter \<open>YearFromLocalTime\<close> computes.\<close>

definition getFullYear :: "(int \<Rightarrow> int) \<Rightarrow> int option \<Rightarrow> jsnum" where
  "getFullYear YearFromLocalTime t =
     (case t of None \<Rightarrow> NaN | Some tv \<Rightarrow> Num (of_int (YearFromLocalTime tv)))"

definition parseCSV :: "(string \<Rightarrow> int option) \<Rightarrow> (int \<Rightarrow> int) \<Rightarrow> row \<Rightarrow> incident" where
  "parseCSV Date_parse YearFromLocalTime data =
     (let date = new_Date Date_parse (data ''Date'')
      in \<lparr>d_id = data ''CaseID'',
          d_location = data ''Location'',
          d_latitude = unary_plus (data ''Latitude''),
          d_longitude = unary_plus (data ''Longitude''),
          d_victims = unary_plus (data ''Total Number of Victims''),
          d_date = date,
          d_year = getFullYear YearFromLocalTime date\<rparr>)"

text \<open>d3.csv applies the row function to every row and keeps each object it returns.\<close>

definition csv_rows :: "(string \<Rightarrow> int option) \<Rightarrow> (int \<Rightarrow> int) \<Rightarrow> row list \<Rightarrow> incident list" where
  "csv_rows Date_parse YearFromLocalTime rows = map (parseCSV Date_parse YearFromLocalTime) rows"

section \<open>The page state\<close>

text \<open>The attributes the script sets on a circle.\<close>

record attrs =
  attr_cx :: jsnum
  attr_cy :: jsnum
  attr_r :: jsnum
  attr_opacity :: real
  attr_fill :: string

text \<open>The two listeners that \<open>updateMap\<close> installs.\<close>

datatype listener = ShowLocation | HideTooltip

text \<open>
  A circle element: \<open>node\<close> is the identity of the DOM element, \<open>datum\<close> the incident
  bound to it (\<open>__data__\<close>), \<open>transition\<close> the attribute values a scheduled transition
  will reach, and the listeners registered for the two pointer events.
\<close>

record circle =
  node :: nat
  datum :: incident
  attr :: attrs
  transition :: "attrs option"
  mouseover :: "listener option"
  mouseout :: "listener option"

record state =
  shootingsData :: "incident list"
  circles :: "circle list"
  next_node :: nat
  slider_min :: jsnum
  slider_max :: jsnum
  slider_value :: jsnum
  yearLabel :: jsval
  tooltip_visibility :: "string option"
  tooltip_text :: string

text \<open>
  The projection is d3.geoAlbers, configured from the size of the page: a parameter here.
  Its forward map returns a pair for every input (possibly of NaN).
\<close>

type_synonym projection = "jsnum \<times> jsnum \<Rightarrow> jsnum \<times> jsnum"

text \<open>The attribute callbacks of the script, evaluated on a datum.\<close>

definition circle_attrs :: "projection \<Rightarrow> incident \<Rightarrow> attrs" where
  "circle_attrs projection d =
     \<lparr>attr_cx = fst (projection (d_longitude d, d_latitude d)),
      attr_cy = snd (projection (d_longitude d, d_latitude d)),
      attr_r = rScale (d_victims d),
      attr_opacity = 7 / 10,
      attr_fill = ''#CC0000''\<rparr>"

subsection \<open>The data join\<close>

text \<open>
  \<open>selection.data(values)\<close> without a key function joins by index: the i-th element of
  the selection is bound to the i-th value. Values beyond the selection enter, elements
  beyond the values exit. The result is (update, enter, exit).
\<close>

definition data_join :: "circle list \<Rightarrow> incident list \<Rightarrow> circle list \<times> incident list \<times> circle list" where
  "data_join elements values =
     (map (\<lambda>(c, d). c\<lparr>datum := d\<rparr>) (zip elements values),
      drop (length elements) values,
      drop (length values) elements)"

text \<open>\<open>enter().append("circle")\<close> followed by the five \<open>attr\<close> calls: one new element
  per entering value, appended after the existing ones, with its attributes set at once.\<close>

definition append_circles :: "projection \<Rightarrow> nat \<Rightarrow> incident list \<Rightarrow> circle list" where
  "append_circles projection n values =
     map (\<lambda>(i, d). \<lparr>node = i, datum = d, attr = circle_attrs projection d,
                     transition = None, mouseover = None, mouseout = None\<rparr>)
         (enumerate n values)"

subsection \<open>Sorting\<close>

text \<open>
  \<open>Array.prototype.sort\<close> with a comparison function, as a stable insertion sort: an
  element moves left past every element that compares greater than it. With a
  consistent comparison this is the order every engine produces; with NaN years the
  order is left to the engine, and this is one of the permitted ones.
\<close>

definition insert_sorted :: "('a \<Rightarrow> 'a \<Rightarrow> jsnum) \<Rightarrow> 'a list \<Rightarrow> 'a \<Rightarrow> 'a list" where
  "insert_sorted comparefn placed x =
     (let moved = rev (takeWhile (\<lambda>y. js_gt0 (comparefn y x)) (rev placed))
      in take (length placed - length moved) placed @ x # moved)"

definition Array_sort :: "('a \<Rightarrow> 'a \<Rightarrow> jsnum) \<Rightarrow> 'a list \<Rightarrow> 'a list" where
  "Array_sort comparefn xs = foldl (insert_sorted comparefn) [] xs"

subsection \<open>Page load\<close>

datatype error = TypeError

text \<open>
  The callback of \<open>Promise.all\<close>, from the parsed rows: one circle per incident of the
  whole collection, the sort by year, the slider bounds and value, the label and the
  tooltip. \<open>shootingsData[0].year\<close> throws on an empty collection. The slider hands its
  value back as text; the label and the comparison in \<open>updateMap\<close> treat that text and
  the number alike, and the model keeps the number. Nothing follows the comment
  "TASK 4: INITIALIZE MAP" in the script, so no call of \<open>updateMap\<close> is made here.
\<close>

definition init :: "projection \<Rightarrow> incident list \<Rightarrow> error + state" where
  "init projection data0 =
     (let drawn = append_circles projection 0 data0;
          arr = Array_sort (\<lambda>a b. js_sub (d_year a) (d_year b)) data0
      in case arr of
           [] \<Rightarrow> Inl TypeError
         | first # _ \<Rightarrow>
             Inr \<lparr>shootingsData = arr,
                  circles = drawn,
                  next_node = length data0,
                  slider_min = d_year first,
                  slider_max = d_year (last arr),
                  slider_value = d_year (last arr),
                  yearLabel = JNumber (d_year (last arr)),
                  tooltip_visibility = None,
                  tooltip_text = []\<rparr>)"

subsection \<open>updateMap\<close>

text \<open>TASK 1: the incidents whose year is loosely equal to the argument.\<close>

definition yearData :: "jsval \<Rightarrow> incident list \<Rightarrow> incident list" where
  "yearData year allData = filter (\<lambda>d. loose_eq_num (d_year d) year) allData"

text \<open>
  TASK 2 and 3: the join of the circles with \<open>yearData\<close>, new circles for the entering
  values, a transition to the computed attributes on the entered and updated circles,
  removal of the exiting ones, the label, and the two listeners on every circle left.
\<close>

definition updateMap :: "projection \<Rightarrow> jsval \<Rightarrow> state \<Rightarrow> state" where
  "updateMap projection year s =
     (let values = yearData year (shootingsData s);
          (update, enter, exit) = data_join (circles s) values;
          entered = append_circles projection (next_node s) enter;
          merged = map (\<lambda>c. c\<lparr>transition := Some (circle_attrs projection (datum c))\<rparr>)
                       (update @ entered);
          bound = map (\<lambda>c. c\<lparr>mouseover := Some ShowLocation, mouseout := Some HideTooltip\<rparr>)
                      merged
      in s\<lparr>circles := bound,
           next_node := next_node s + length enter,
           yearLabel := year\<rparr>)"

text \<open>
  The transitions run to their end. A transition of a numeric attribute leaves the
  attribute alone when it already reads as the target; otherwise it interpolates from
  the current value \<open>a\<close> to the target \<open>b\<close> with \<open>a + (b - a) * t\<close>, and its last
  frame is the value at \<open>t = 1\<close>. A current value of NaN therefore stays NaN. Every
  circle the script creates has its opacity and fill at the two constants already, so
  these two transitions have nothing to change and the model takes the targets.
\<close>

definition interpolateNumber_end :: "jsnum \<Rightarrow> jsnum \<Rightarrow> jsnum" where
  "interpolateNumber_end a b = js_add a (js_sub b a)"

definition tween_end :: "jsnum \<Rightarrow> jsnum \<Rightarrow> jsnum" where
  "tween_end current target =
     (if current = target then current else interpolateNumber_end current target)"

definition settle_circle :: "circle \<Rightarrow> circle" where
  "settle_circle c =
     (case transition c of
        None \<Rightarrow> c
      | Some a \<Rightarrow>
          c\<lparr>attr := \<lparr>attr_cx = tween_end (attr_cx (attr c)) (attr_cx a),
                      attr_cy = tween_end (attr_cy (attr c)) (attr_cy a),
                      attr_r = tween_end (attr_r (attr c)) (attr_r a),
                      attr_opacity = attr_opacity a,
                      attr_fill = attr_fill a\<rparr>,
            transition := None\<rparr>)"

definition settle :: "state \<Rightarrow> state" where
  "settle s = s\<lparr>circles := map settle_circle (circles s)\<rparr>"

subsection \<open>Pointer events\<close>

text \<open>
  A listener runs with the datum of its element. \<open>text(undefined)\<close> clears the text.
\<close>

definition run_listener :: "listener option \<Rightarrow> circle \<Rightarrow> state \<Rightarrow> state" where
  "run_listener l c s =
     (case l of
        None \<Rightarrow> s
      | Some ShowLocation \<Rightarrow>
          s\<lparr>tooltip_visibility := Some ''visible'',
            tooltip_text := (case d_location (datum c) of None \<Rightarrow> [] | Some t \<Rightarrow> t)\<rparr>
      | Some HideTooltip \<Rightarrow> s\<lparr>tooltip_visibility := Some ''hidden''\<rparr>)"

definition pointer_enter :: "circle \<Rightarrow> state \<Rightarrow> state" where
  "pointer_enter c s = run_listener (mouseover c) c s"

definition pointer_leave :: "circle \<Rightarrow> state \<Rightarrow> state" where
  "pointer_leave c s = run_listener (mouseout c) c s"

section \<open>Numeric literals and blank cells\<close>

text \<open>
  The characters that occur in some StrNumericLiteral: the digits, the signs and the
  dot, the hexadecimal letters (with the exponent marker \<open>e\<close>), the radix markers, and
  the letters of \<open>Infinity\<close>.
\<close>

definition literal_char :: "char \<Rightarrow> bool" where
  "literal_char c \<longleftrightarrow> c \<in> set ''0123456789abcdefABCDEFxXoO+-.Inity''"

text \<open>
  What a numeric literal is, after the StringNumericLiteral grammar of ECMAScript and
  apart from the conversion above: a text is read against the productions, each split
  of the text into a front and a rest being tried.
\<close>

text \<open>All ways to cut a list into a front and a rest.\<close>

definition splits :: "'a list \<Rightarrow> ('a list \<times> 'a list) list" where
  "splits s = map (\<lambda>i. (take i s, drop i s)) [0..<Suc (length s)]"

text \<open>One or more characters of an alphabet.\<close>

definition one_or_more :: "string \<Rightarrow> string \<Rightarrow> bool" where
  "one_or_more alphabet s \<longleftrightarrow> s \<noteq> [] \<and> list_all (\<lambda>c. c \<in> set alphabet) s"

definition is_DecimalDigits :: "string \<Rightarrow> bool" where
  "is_DecimalDigits = one_or_more ''0123456789''"

definition is_HexDigits :: "string \<Rightarrow> bool" where
  "is_HexDigits = one_or_more ''0123456789abcdefABCDEF''"

definition is_OctalDigits :: "string \<Rightarrow> bool" where
  "is_OctalDigits = one_or_more ''01234567''"

definition is_BinaryDigits :: "string \<Rightarrow> bool" where
  "is_BinaryDigits = one_or_more ''01''"

text \<open>SignedInteger: DecimalDigits, with an optional sign in front.\<close>

definition is_SignedInteger :: "string \<Rightarrow> bool" where
  "is_SignedInteger s \<longleftrightarrow>
     is_DecimalDigits s \<or>
     (case s of [] \<Rightarrow> False
      | c # ds \<Rightarrow> (c = CHR ''+'' \<or> c = CHR ''-'') \<and> is_DecimalDigits ds)"

text \<open>ExponentPart: \<open>e\<close> or \<open>E\<close> and a SignedInteger.\<close>

definition is_ExponentPart :: "string \<Rightarrow> bool" where
  "is_ExponentPart s \<longleftrightarrow>
     (case s of [] \<Rightarrow> False
      | e # r \<Rightarrow> (e = CHR ''e'' \<or> e = CHR ''E'') \<and> is_SignedInteger r)"

text \<open>The digits of a decimal literal: \<open>DecimalDigits\<close>, \<open>DecimalDigits . DecimalDigits?\<close>
  or \<open>. DecimalDigits\<close>.\<close>

definition is_Mantissa :: "string \<Rightarrow> bool" where
  "is_Mantissa m \<longleftrightarrow>
     is_DecimalDigits m \<or>
     list_ex (\<lambda>(ip, r). case r of [] \<Rightarrow> False
                | c # fp \<Rightarrow> c = CHR ''.'' \<and>
                    (is_DecimalDigits ip \<and> (fp = [] \<or> is_DecimalDigits fp) \<or>
                     ip = [] \<and> is_DecimalDigits fp))
       (splits m)"

text \<open>StrUnsignedDecimalLiteral: \<open>Infinity\<close>, or the digits and an optional ExponentPart.\<close>

definition is_StrUnsignedDecimalLiteral :: "string \<Rightarrow> bool" where
  "is_StrUnsignedDecimalLiteral s \<longleftrightarrow>
     s = ''Infinity'' \<or>
     list_ex (\<lambda>(m, ex). is_Mantissa m \<and> (ex = [] \<or> is_ExponentPart ex)) (splits s)"

text \<open>StrDecimalLiteral: a StrUnsignedDecimalLiteral with an optional sign in front.\<close>

definition is_StrDecimalLiteral :: "string \<Rightarrow> bool" where
  "is_StrDecimalLiteral s \<longleftrightarrow>
     is_StrUnsignedDecimalLiteral s \<or>
     (case s of [] \<Rightarrow> False
      | c # r \<Rightarrow> (c = CHR ''+'' \<or> c = CHR ''-'') \<and> is_StrUnsignedDecimalLiteral r)"

text \<open>NonDecimalIntegerLiteral: \<open>0x\<close>, \<open>0o\<close> or \<open>0b\<close> (in either case) and digits of that
  radix.\<close>

definition is_NonDecimalIntegerLiteral :: "string \<Rightarrow> bool" where
  "is_NonDecimalIntegerLiteral s \<longleftrightarrow>
     (case s of
        c0 # c1 # ds \<Rightarrow>
          c0 = CHR ''0'' \<and>
          ((c1 = CHR ''x'' \<or> c1 = CHR ''X'') \<and> is_HexDigits ds \<or>
           (c1 = CHR ''o'' \<or> c1 = CHR ''O'') \<and> is_OctalDigits ds \<or>
           (c1 = CHR ''b'' \<or> c1 = CHR ''B'') \<and> is_BinaryDigits ds)
      | _ \<Rightarrow> False)"

definition is_StrNumericLiteral :: "string \<Rightarrow> bool" where
  "is_StrNumericLiteral s \<longleftrightarrow> is_StrDecimalLiteral s \<or> is_NonDecimalIntegerLiteral s"

text \<open>A text that denotes a number: a StrNumericLiteral with white space around it.\<close>

definition numeric_text :: "string \<Rightarrow> bool" where
  "numeric_text s \<longleftrightarrow>
     list_ex (\<lambda>(a, r). list_all StrWhiteSpaceChar a \<and>
        list_ex (\<lambda>(t, b). is_StrNumericLiteral t \<and> list_all StrWhiteSpaceChar b) (splits r))
       (splits s)"

text \<open>A non-numeric cell: the column is missing, or the text is neither blank nor the
  text of a number.\<close>

definition non_numeric_cell :: "string option \<Rightarrow> bool" where
  "non_numeric_cell v =
     (case v of None \<Rightarrow> True
      | Some s \<Rightarrow> \<not> list_all StrWhiteSpaceChar s \<and> \<not> numeric_text s)"

text \<open>A cell that is present and holds nothing but white space (the empty cell included).\<close>

definition blank_cell :: "string option \<Rightarrow> bool" where
  "blank_cell v = (case v of None \<Rightarrow> False | Some s \<Rightarrow> list_all StrWhiteSpaceChar s)"

section \<open>The scenario of the specification\<close>

text \<open>
  Two incidents, A in 2015 with 10 victims and B in 2016 with 5 victims, a projection
  that leaves coordinates as they are, and the page state that loading the two
  incidents produces.
\<close>

definition example_projection :: projection where
  "example_projection lonlat = lonlat"

definition incident_A :: incident where
  "incident_A = \<lparr>d_id = Some ''A'', d_location = Some ''Alphaville'', d_latitude = Num 40,
     d_longitude = Num (- 100), d_victims = Num 10, d_date = Some 1433116800000,
     d_year = Num 2015\<rparr>"

definition incident_B :: incident where
  "incident_B = \<lparr>d_id = Some ''B'', d_location = Some ''Betatown'', d_latitude = Num 35,
     d_longitude = Num (- 90), d_victims = Num 5, d_date = Some 1464739200000,
     d_year = Num 2016\<rparr>"

definition loaded_circle :: "nat \<Rightarrow> incident \<Rightarrow> circle" where
  "loaded_circle n d = \<lparr>node = n, datum = d, attr = circle_attrs example_projection d,
     transition = None, mouseover = None, mouseout = None\<rparr>"

definition loaded_state :: state where
  "loaded_state = \<lparr>shootingsData = [incident_A, incident_B],
     circles = [loaded_circle 0 incident_A, loaded_circle 1 incident_B],
     next_node = 2, slider_min = Num 2015, slider_max = Num 2016, slider_value = Num 2016,
     yearLabel = JNumber (Num 2016), tooltip_visibility = None, tooltip_text = []\<rparr>"

text \<open>The first circle of the page after \<open>updateMap("2016")\<close> on the loaded state.\<close>

definition rebound_circle :: circle where
  "rebound_circle = \<lparr>node = 0, datum = incident_B,
     attr = circle_attrs example_projection incident_A,
     transition = Some (circle_attrs example_projection incident_B),
     mouseover = Some ShowLocation, mouseout = Some HideTooltip\<rparr>"

text \<open>A date reader that knows one date, a year function, and three rows: a well-formed
  one, one whose numeric cells are malformed or missing, and one whose numeric cells are empty.\<close>

definition example_Date_parse :: "string \<Rightarrow> int option" where
  "example_Date_parse s = (if s = ''6/1/2015'' then Some 1433116800000 else None)"

definition example_YearFromLocalTime :: "int \<Rightarrow> int" where
  "example_YearFromLocalTime t = 1970 + t div 31556952000"

definition row_good :: row where
  "row_good = [''CaseID'' \<mapsto> ''A'', ''Location'' \<mapsto> ''Alphaville'', ''Latitude'' \<mapsto> ''40'',
     ''Longitude'' \<mapsto> ''-100'', ''Total Number of Victims'' \<mapsto> ''10'', ''Date'' \<mapsto> ''6/1/2015'']"

definition row_malformed :: row where
  "row_malformed = [''CaseID'' \<mapsto> ''M'', ''Location'' \<mapsto> ''Nowhere'', ''Latitude'' \<mapsto> ''abc'',
     ''Longitude'' \<mapsto> ''40.1-40.2'', ''Date'' \<mapsto> ''someday'']"

definition row_blank :: row where
  "row_blank = [''CaseID'' \<mapsto> ''E'', ''Location'' \<mapsto> ''Emptyville'', ''Latitude'' \<mapsto> [],
     ''Longitude'' \<mapsto> '' '', ''Total Number of Victims'' \<mapsto> [], ''Date'' \<mapsto> ''6/1/2015'']"

section \<open>Properties of the radius scale\<close>

lemma rScale_nonneg: "0 \<le> v \<Longrightarrow> rScale (Num v) = Num (25 * sqrt (v / 50))"
  by (simp add: rScale_def scaleSqrt_def raise_def real_sqrt_divide)

text \<open>
  Claim C6. The radius scale is a square-root relationship from victim count to radius
  on the domain [0, 50] and the range [0, 25]: the radius of 0 victims is 0, the radius of
  50 victims is 25, every count \<open>v\<close> in the domain has radius \<open>25 * sqrt (v / 50)\<close>, and
  for counts \<open>a < b\<close> in the domain the radius of \<open>a\<close> is at most the radius of \<open>b\<close>.
\<close>

theorem rScale_sqrt_monotone:
  assumes "0 \<le> a" and "a < b" and "b \<le> 50"
  shows "rScale (Num 0) = Num 0 \<and> rScale (Num 50) = Num 25 \<and>
         rScale (Num a) = Num (25 * sqrt (a / 50)) \<and>
         rScale (Num b) = Num (25 * sqrt (b / 50)) \<and>
         js_le (rScale (Num a)) (rScale (Num b))"
proof -
  have b0: "0 \<le> b" using assms by linarith
  have "sqrt (a / 50) \<le> sqrt (b / 50)" using assms by simp
  then show ?thesis
    using rScale_nonneg [OF assms(1)] rScale_nonneg [OF b0] rScale_nonneg [of 0] rScale_nonneg [of 50]
    by simp
qed

theorem rScale_sqrt_monotone_witness:
  "(0::real) \<le> 2 \<and> (2::real) < 8 \<and> (8::real) \<le> 50 \<and>
   rScale (Num 0) = Num 0 \<and> rScale (Num 50) = Num 25 \<and>
   js_le (rScale (Num 2)) (rScale (Num 8))"
  using rScale_sqrt_monotone [of 2 8] by simp

text \<open>
  Claim C10. Above the domain maximum of 50 victims the scale extrapolates and does not
  clamp: the radius is strictly greater than 25 and is still \<open>25 * sqrt (v / 50)\<close>.
\<close>

theorem rScale_extrapolates:
  assumes "50 < v"
  shows "\<exists>r. rScale (Num v) = Num r \<and> 25 < r \<and> r = 25 * sqrt (v / 50)"
proof -
  have "sqrt 1 < sqrt (v / 50)" using assms by (subst real_sqrt_less_iff) simp
  then have "25 < 25 * sqrt (v / 50)" by simp
  moreover have "rScale (Num v) = Num (25 * sqrt (v / 50))"
    using assms by (intro rScale_nonneg) simp
  ultimately show ?thesis by blast
qed

theorem rScale_extrapolates_witness:
  "(50::real) < 200 \<and> rScale (Num 200) = Num 50"
  using rScale_extrapolates [of 200] by auto

section \<open>Evaluating the scenario\<close>

lemmas parser_defs = StringToNumber_def trim_ws_def StrWhiteSpaceChar_def
  NonDecimalIntegerLiteral_def StrDecimalLiteral_def StrUnsignedDecimalLiteral_def
  ExponentPart_def all_digits_def is_dec_def DecimalDigit_def HexDigit_def OctalDigit_def
  BinaryDigit_def dec_value_def digits_value_def scale10_def

lemma StringToNumber_2015: "StringToNumber ''2015'' = Num 2015"
  by (simp add: parser_defs)

lemma StringToNumber_2016: "StringToNumber ''2016'' = Num 2016"
  by (simp add: parser_defs)

lemma StringToNumber_1999: "StringToNumber ''1999'' = Num 1999"
  by (simp add: parser_defs)

lemma init_example: "init example_projection [incident_A, incident_B] = Inr loaded_state"
  by (simp add: init_def Array_sort_def insert_sorted_def append_circles_def loaded_state_def
      loaded_circle_def incident_A_def incident_B_def Let_def)

lemma yearData_example_2015:
  "yearData (JString ''2015'') (shootingsData loaded_state) = [incident_A]"
  by (simp add: yearData_def loaded_state_def StringToNumber_2015 incident_A_def incident_B_def)

lemma yearData_example_2016:
  "yearData (JString ''2016'') (shootingsData loaded_state) = [incident_B]"
  by (simp add: yearData_def loaded_state_def StringToNumber_2016 incident_A_def incident_B_def)

section \<open>The data join\<close>

lemma datum_join_update:
  "map datum (map (\<lambda>(c, d). c\<lparr>datum := d\<rparr>) (zip cs vs)) = take (length cs) vs"
proof -
  have "map datum (map (\<lambda>(c, d). c\<lparr>datum := d\<rparr>) (zip cs vs)) = map snd (zip cs vs)"
    by (simp add: case_prod_beta)
  also have "\<dots> = take (length cs) vs"
    by (simp add: map_snd_zip_take min_def)
  finally show ?thesis .
qed

lemma datum_append_circles: "map datum (append_circles p n vs) = vs"
  by (induction vs arbitrary: n) (simp_all add: append_circles_def)

lemma node_append_circles: "map node (append_circles p n vs) = [n..<n + length vs]"
  by (induction vs arbitrary: n) (simp_all add: append_circles_def upt_rec)

lemma circles_updateMap:
  "circles (updateMap p y s) =
     map (\<lambda>c. c\<lparr>mouseover := Some ShowLocation, mouseout := Some HideTooltip\<rparr>)
       (map (\<lambda>c. c\<lparr>transition := Some (circle_attrs p (datum c))\<rparr>)
          (map (\<lambda>(c, d). c\<lparr>datum := d\<rparr>) (zip (circles s) (yearData y (shootingsData s))) @
           append_circles p (next_node s)
             (drop (length (circles s)) (yearData y (shootingsData s)))))"
  by (simp add: updateMap_def data_join_def Let_def)

lemma datum_updateMap:
  "map datum (circles (updateMap p y s)) = yearData y (shootingsData s)"
proof -
  have "map datum (circles (updateMap p y s)) =
        map datum (map (\<lambda>(c, d). c\<lparr>datum := d\<rparr>) (zip (circles s) (yearData y (shootingsData s)))) @
        map datum (append_circles p (next_node s)
             (drop (length (circles s)) (yearData y (shootingsData s))))"
    by (simp add: circles_updateMap comp_def)
  then show ?thesis
    by (simp only: datum_join_update datum_append_circles append_take_drop_id)
qed

lemma shootingsData_updateMap [simp]: "shootingsData (updateMap p y s) = shootingsData s"
  by (simp add: updateMap_def data_join_def Let_def)

lemma yearLabel_updateMap [simp]: "yearLabel (updateMap p y s) = y"
  by (simp add: updateMap_def data_join_def Let_def)

lemma shootingsData_foldr [simp]: "shootingsData (foldr (updateMap p) ys s) = shootingsData s"
  by (induction ys) simp_all

lemma settle_circle_datum [simp]: "datum (settle_circle c) = datum c"
  by (simp add: settle_circle_def split: option.splits)

lemma circles_settle: "circles (settle s) = map settle_circle (circles s)"
  by (simp add: settle_def)

lemma datum_settle: "map datum (circles (settle s)) = map datum (circles s)"
  by (simp add: circles_settle comp_def)

lemma updateMap_transition:
  "c \<in> set (circles (updateMap p y s)) \<Longrightarrow> transition c = Some (circle_attrs p (datum c))"
  by (auto simp: circles_updateMap)

lemma updateMap_listeners:
  "c \<in> set (circles (updateMap p y s)) \<Longrightarrow>
     mouseover c = Some ShowLocation \<and> mouseout c = Some HideTooltip"
  by (auto simp: circles_updateMap)

lemma circles_example_2016:
  "circles (updateMap example_projection (JString ''2016'') loaded_state) = [rebound_circle]"
  by (simp add: circles_updateMap yearData_example_2016)
     (simp add: loaded_state_def loaded_circle_def append_circles_def rebound_circle_def)

lemma circles_example_2015:
  "circles (updateMap example_projection (JString ''2015'') loaded_state) =
     [\<lparr>node = 0, datum = incident_A, attr = circle_attrs example_projection incident_A,
       transition = Some (circle_attrs example_projection incident_A),
       mouseover = Some ShowLocation, mouseout = Some HideTooltip\<rparr>]"
  by (simp add: circles_updateMap yearData_example_2015)
     (simp add: loaded_state_def loaded_circle_def append_circles_def)

section \<open>The year filter\<close>

lemma loose_eq_num_Num: "ToNumber year = Num r \<Longrightarrow> loose_eq_num x year = (x = Num r)"
  by (cases year; cases x) auto

lemma loose_eq_num_NaN [simp]: "loose_eq_num NaN year = False"
  by (cases year) auto

lemma yearData_Num:
  "ToNumber year = Num r \<Longrightarrow> yearData year ds = filter (\<lambda>d. d_year d = Num r) ds"
  by (simp add: yearData_def loose_eq_num_Num)

text \<open>
  Claim C1. For every year \<open>Y\<close>, \<open>updateMap\<close> called with \<open>Y\<close> (as a number or as the
  slider's text) computes as visible set exactly the incidents of the loaded collection
  whose year equals \<open>Y\<close>: it is the collection filtered by year equality, every member is
  an incident of the collection with year \<open>Y\<close>, its size is the number of incidents with
  that year, and it is the data bound to the circles when the call returns.
\<close>

theorem updateMap_filters_year:
  assumes "ToNumber year = Num (of_int Y)"
  shows "yearData year (shootingsData s) =
           filter (\<lambda>d. d_year d = Num (of_int Y)) (shootingsData s) \<and>
         map datum (circles (updateMap p year s)) = yearData year (shootingsData s) \<and>
         (\<forall>d \<in> set (yearData year (shootingsData s)).
            d \<in> set (shootingsData s) \<and> d_year d = Num (of_int Y)) \<and>
         length (yearData year (shootingsData s)) =
           length (filter (\<lambda>d. d_year d = Num (of_int Y)) (shootingsData s))"
  using yearData_Num [OF assms] datum_updateMap by simp

theorem updateMap_filters_year_witness:
  "ToNumber (JString ''2015'') = Num (of_int 2015) \<and>
   yearData (JString ''2015'') (shootingsData loaded_state) = [incident_A] \<and>
   map datum (circles (updateMap example_projection (JString ''2015'') loaded_state)) =
     [incident_A] \<and>
   d_year incident_A = Num (of_int 2015) \<and>
   length (yearData (JString ''2015'') (shootingsData loaded_state)) = 1"
  using updateMap_filters_year [of "JString ''2015''" 2015 loaded_state example_projection]
  by (simp add: StringToNumber_2015 loaded_state_def incident_A_def incident_B_def)

section \<open>Reconciliation\<close>

text \<open>
  Claim C3. After any \<open>updateMap\<close> call settles, whatever calls of \<open>updateMap\<close> came
  before, the incidents bound to the rendered circles are exactly the visible set of
  that call, so the ids of the rendered circles are exactly the ids of the visible set:
  none is missing and none is left over.
\<close>

theorem updateMap_rendered_ids:
  "map datum (circles (settle (updateMap p year (foldr (updateMap p) years s)))) =
     yearData year (shootingsData s) \<and>
   map d_id (map datum (circles (settle (updateMap p year (foldr (updateMap p) years s))))) =
     map d_id (yearData year (shootingsData s)) \<and>
   (d_id \<circ> datum) ` set (circles (settle (updateMap p year (foldr (updateMap p) years s)))) =
     d_id ` set (yearData year (shootingsData s))"
proof -
  let ?s = "foldr (updateMap p) years s"
  have d: "map datum (circles (settle (updateMap p year ?s))) = yearData year (shootingsData s)"
    by (simp only: datum_settle datum_updateMap shootingsData_foldr)
  have "(d_id \<circ> datum) ` set (circles (settle (updateMap p year ?s))) =
        d_id ` set (map datum (circles (settle (updateMap p year ?s))))"
    by (simp add: image_comp)
  with d show ?thesis by simp
qed

section \<open>Idempotence\<close>

lemma rebind_same:
  "map (\<lambda>(c, d). c\<lparr>datum := d\<rparr>) (zip cs (map datum cs)) = cs"
  by (induction cs) simp_all

lemma updateMap_fixed:
  assumes d: "map datum (circles s) = yearData y (shootingsData s)"
    and t: "\<And>c. c \<in> set (circles s) \<Longrightarrow> transition c = Some (circle_attrs p (datum c))"
    and m: "\<And>c. c \<in> set (circles s) \<Longrightarrow>
              mouseover c = Some ShowLocation \<and> mouseout c = Some HideTooltip"
    and l: "yearLabel s = y"
  shows "updateMap p y s = s"
proof -
  have len: "length (yearData y (shootingsData s)) = length (circles s)"
    using d by (metis length_map)
  have r: "map (\<lambda>(c, d). c\<lparr>datum := d\<rparr>) (zip (circles s) (yearData y (shootingsData s))) =
           circles s"
    using rebind_same [of "circles s"] d by simp
  have c: "circles (updateMap p y s) = circles s"
    unfolding circles_updateMap r
    by (simp add: len append_circles_def t m map_idI)
  have n: "next_node (updateMap p y s) = next_node s"
    by (simp add: updateMap_def data_join_def Let_def len)
  show ?thesis
    using c n l by (simp add: updateMap_def data_join_def Let_def len)
qed

lemma updateMap_twice: "updateMap p y (updateMap p y s) = updateMap p y s"
  by (rule updateMap_fixed)
     (simp_all add: datum_updateMap updateMap_transition updateMap_listeners)

lemma zip_rebind_settle:
  "map (\<lambda>(c, d). c\<lparr>datum := d\<rparr>) (zip (map settle_circle cs) vs) =
   map settle_circle (map (\<lambda>(c, d). c\<lparr>datum := d\<rparr>) (zip cs vs))"
  by (induction cs arbitrary: vs)
     (auto simp: settle_circle_def split: option.splits list.splits simp: zip_Cons1)

lemma tween_end_twice: "tween_end (tween_end a b) b = tween_end a b"
  by (cases a; cases b) (auto simp: tween_end_def interpolateNumber_end_def)

lemma settle_retarget:
  assumes "transition c = Some a" and "mouseover c = m" and "mouseout c = n"
  shows "settle_circle ((settle_circle c)\<lparr>transition := Some a, mouseover := m, mouseout := n\<rparr>) =
         settle_circle c"
  using assms by (simp add: settle_circle_def tween_end_twice)

lemma settle_updateMap_settled:
  assumes d: "map datum (circles s) = yearData y (shootingsData s)"
    and t: "\<And>c. c \<in> set (circles s) \<Longrightarrow> transition c = Some (circle_attrs p (datum c))"
    and m: "\<And>c. c \<in> set (circles s) \<Longrightarrow>
              mouseover c = Some ShowLocation \<and> mouseout c = Some HideTooltip"
    and l: "yearLabel s = y"
  shows "settle (updateMap p y (settle s)) = settle s"
proof -
  have len: "length (yearData y (shootingsData s)) = length (circles s)"
    using d by (metis length_map)
  have r: "map (\<lambda>(c, d). c\<lparr>datum := d\<rparr>) (zip (circles s) (yearData y (shootingsData s))) =
           circles s"
    using rebind_same [of "circles s"] d by simp
  have sd: "shootingsData (settle s) = shootingsData s"
    by (simp add: settle_def)
  have c1: "circles (updateMap p y (settle s)) =
            map (\<lambda>c. (settle_circle c)\<lparr>transition := Some (circle_attrs p (datum c)),
                   mouseover := Some ShowLocation, mouseout := Some HideTooltip\<rparr>) (circles s)"
    unfolding circles_updateMap sd circles_settle zip_rebind_settle r
    by (simp add: len append_circles_def comp_def)
  have c2: "circles (settle (updateMap p y (settle s))) = circles (settle s)"
    unfolding circles_settle c1
    by (simp add: comp_def t m settle_retarget)
  have n: "next_node (updateMap p y (settle s)) = next_node s"
    by (simp add: updateMap_def data_join_def Let_def len settle_def)
  show ?thesis
    using c2 n l
    by (simp add: settle_def updateMap_def data_join_def Let_def len)
qed

lemma settle_updateMap_settle_same:
  "settle (updateMap p y (settle (updateMap p y s))) = settle (updateMap p y s)"
  by (rule settle_updateMap_settled)
     (simp_all add: datum_updateMap updateMap_transition updateMap_listeners)

text \<open>
  Claim C4. \<open>updateMap\<close> is idempotent in the final rendered state: from every starting
  state and for every year, a second call with the same year leaves the state of the
  first call as it is (the same circles with the same bound incidents, transition
  targets and listeners, and the same label), whether the second call comes before the
  transitions of the first have settled or after, and so the settled states agree.
\<close>

theorem updateMap_idempotent:
  "updateMap p y (updateMap p y s) = updateMap p y s \<and>
   settle (updateMap p y (updateMap p y s)) = settle (updateMap p y s) \<and>
   settle (updateMap p y (settle (updateMap p y s))) = settle (updateMap p y s)"
  by (simp add: updateMap_twice settle_updateMap_settle_same)

section \<open>A year without incidents\<close>

text \<open>
  Claim C8. For every year \<open>Y\<close> that no incident of the collection has, inside or
  outside the bounds of the slider, \<open>updateMap\<close> returns a state (it has no failing
  branch): the visible set is empty, no circle is left on the page, and the year label
  shows the argument of the call.
\<close>

theorem updateMap_empty_year:
  assumes "ToNumber year = Num (of_int Y)"
    and "\<forall>d \<in> set (shootingsData s). d_year d \<noteq> Num (of_int Y)"
  shows "yearData year (shootingsData s) = [] \<and>
         circles (updateMap p year s) = [] \<and>
         circles (settle (updateMap p year s)) = [] \<and>
         yearLabel (updateMap p year s) = year \<and>
         yearLabel (settle (updateMap p year s)) = year"
proof -
  have e: "yearData year (shootingsData s) = []"
    using assms by (simp add: yearData_Num)
  have "map datum (circles (updateMap p year s)) = []"
    using e by (simp only: datum_updateMap)
  then have "circles (updateMap p year s) = []" by simp
  then show ?thesis using e by (simp add: settle_def)
qed

theorem updateMap_empty_year_witness:
  "ToNumber (JString ''1999'') = Num (of_int 1999) \<and>
   shootingsData loaded_state = [incident_A, incident_B] \<and>
   d_year incident_A \<noteq> Num (of_int 1999) \<and> d_year incident_B \<noteq> Num (of_int 1999) \<and>
   length (circles loaded_state) = 2 \<and>
   circles (updateMap example_projection (JString ''1999'') loaded_state) = [] \<and>
   yearLabel (updateMap example_projection (JString ''1999'') loaded_state) = JString ''1999''"
  using updateMap_empty_year [of "JString ''1999''" 1999 loaded_state example_projection]
  by (simp add: StringToNumber_1999 loaded_state_def incident_A_def incident_B_def)

section \<open>The tooltip\<close>

text \<open>
  Claim C9. After every \<open>updateMap\<close> call, every circle on the page has working hover
  listeners: when the pointer enters the circle, in whatever state the page is then,
  the shared tooltip becomes visible with the location text of the incident bound to
  the circle, and when the pointer leaves, the tooltip is hidden.
\<close>

theorem updateMap_hover_handlers:
  "\<forall>c \<in> set (circles (updateMap p year s)).
     tooltip_visibility (pointer_enter c t) = Some ''visible'' \<and>
     tooltip_text (pointer_enter c t) =
       (case d_location (datum c) of None \<Rightarrow> [] | Some l \<Rightarrow> l) \<and>
     tooltip_visibility (pointer_leave c (pointer_enter c t)) = Some ''hidden''"
  by (auto simp: pointer_enter_def pointer_leave_def run_listener_def
      dest!: updateMap_listeners)

theorem updateMap_hover_handlers_witness:
  "rebound_circle \<in> set (circles (updateMap example_projection (JString ''2016'') loaded_state)) \<and>
   tooltip_visibility (pointer_enter rebound_circle loaded_state) = Some ''visible'' \<and>
   tooltip_text (pointer_enter rebound_circle loaded_state) = ''Betatown'' \<and>
   tooltip_visibility (pointer_leave rebound_circle (pointer_enter rebound_circle loaded_state)) =
     Some ''hidden''"
proof -
  have m: "rebound_circle \<in>
           set (circles (updateMap example_projection (JString ''2016'') loaded_state))"
    by (simp add: circles_example_2016)
  have l: "d_location (datum rebound_circle) = Some ''Betatown''"
    by (simp add: rebound_circle_def incident_B_def)
  show ?thesis
    using updateMap_hover_handlers
            [of example_projection "JString ''2016''" loaded_state loaded_state] m l
    by auto
qed

section \<open>The join is by index, and the first draw is of the whole collection\<close>

lemma next_node_updateMap:
  "next_node (updateMap p y s) =
     next_node s + (length (yearData y (shootingsData s)) - length (circles s))"
  by (simp add: updateMap_def data_join_def Let_def)

lemma init_draws_data: "init p ds = Inr s \<Longrightarrow> map datum (circles s) = ds"
  by (auto simp: init_def Let_def datum_append_circles split: list.splits)

text \<open>
  Claim C2 (the script departs from it). The claim reconciles by incident id. The script
  calls \<open>data(yearData)\<close> without the key function that its own comment asks for, so the
  join is by position. On the loaded page of the scenario, circle 0 shows A and circle 1
  shows B. After \<open>updateMap("2016")\<close> the circle that showed B is gone and circle 0, which
  showed A, is bound to B. After \<open>updateMap("2015")\<close> and then \<open>updateMap("2016")\<close> the one
  circle is still circle 0: no circle was created for B and none removed for A.
\<close>

theorem updateMap_joins_by_index:
  "init example_projection [incident_A, incident_B] = Inr loaded_state \<and>
   map node (circles loaded_state) = [0, 1] \<and>
   map (d_id \<circ> datum) (circles loaded_state) = [Some ''A'', Some ''B''] \<and>
   map node (circles (updateMap example_projection (JString ''2016'') loaded_state)) = [0] \<and>
   map (d_id \<circ> datum) (circles (updateMap example_projection (JString ''2016'') loaded_state)) =
     [Some ''B''] \<and>
   map node (circles (updateMap example_projection (JString ''2015'') loaded_state)) = [0] \<and>
   map (d_id \<circ> datum) (circles (updateMap example_projection (JString ''2015'') loaded_state)) =
     [Some ''A''] \<and>
   map node (circles (updateMap example_projection (JString ''2016'')
     (updateMap example_projection (JString ''2015'') loaded_state))) = [0] \<and>
   map (d_id \<circ> datum) (circles (updateMap example_projection (JString ''2016'')
     (updateMap example_projection (JString ''2015'') loaded_state))) = [Some ''B''] \<and>
   next_node (updateMap example_projection (JString ''2016'')
     (updateMap example_projection (JString ''2015'') loaded_state)) = next_node loaded_state"
proof -
  have two: "circles (updateMap example_projection (JString ''2016'')
               (updateMap example_projection (JString ''2015'') loaded_state)) =
             [\<lparr>node = 0, datum = incident_B, attr = circle_attrs example_projection incident_A,
               transition = Some (circle_attrs example_projection incident_B),
               mouseover = Some ShowLocation, mouseout = Some HideTooltip\<rparr>]"
    by (simp add: circles_updateMap [of _ "JString ''2016''"] yearData_example_2016
        circles_example_2015 append_circles_def)
  have n: "next_node (updateMap example_projection (JString ''2016'')
             (updateMap example_projection (JString ''2015'') loaded_state)) = next_node loaded_state"
    by (simp add: next_node_updateMap yearData_example_2016 yearData_example_2015
        circles_example_2015)
       (simp add: loaded_state_def)
  have l: "map node (circles loaded_state) = [0, 1]"
          "map (d_id \<circ> datum) (circles loaded_state) = [Some ''A'', Some ''B'']"
    by (simp_all add: loaded_state_def loaded_circle_def incident_A_def incident_B_def)
  show ?thesis
    using init_example two n l
    by (simp add: circles_example_2016 circles_example_2015 rebound_circle_def
        incident_A_def incident_B_def)
qed

text \<open>
  Claim C5 (the script departs from it). Loading sets the slider, and with it the
  selected year, to the year of the last incident after the sort: 2016 in the scenario.
  The circles drawn at load are those of the whole collection, A and B, and not of the
  incidents of 2016 alone: the call of \<open>updateMap\<close> that the comment "TASK 4: INITIALIZE
  MAP" announces is not in the script.
\<close>

theorem init_draws_whole_collection:
  "init example_projection [incident_A, incident_B] = Inr loaded_state \<and>
   slider_value loaded_state = Num 2016 \<and>
   map datum (circles loaded_state) = [incident_A, incident_B] \<and>
   yearData (JNumber (slider_value loaded_state)) (shootingsData loaded_state) = [incident_B]"
  using init_example
  by (simp add: loaded_state_def loaded_circle_def yearData_def incident_A_def incident_B_def)

section \<open>Parsing rows\<close>

lemma those_Some_all: "those (map f xs) = Some ys \<Longrightarrow> x \<in> set xs \<Longrightarrow> f x \<noteq> None"
  by (induction xs arbitrary: ys) (auto split: option.splits)

lemma all_digits_Some: "all_digits dig s = Some ds \<Longrightarrow> c \<in> set s \<Longrightarrow> dig c \<noteq> None"
  by (auto simp: all_digits_def split: if_splits dest: those_Some_all)

lemma HexDigit_numeric: "HexDigit c \<noteq> None \<Longrightarrow> literal_char c"
  by (auto simp: HexDigit_def literal_char_def split: if_splits)

lemma DecimalDigit_numeric: "DecimalDigit c \<noteq> None \<Longrightarrow> literal_char c"
  by (auto simp: DecimalDigit_def literal_char_def split: if_splits)

lemma OctalDigit_numeric: "OctalDigit c \<noteq> None \<Longrightarrow> literal_char c"
  by (auto simp: OctalDigit_def literal_char_def split: if_splits)

lemma BinaryDigit_numeric: "BinaryDigit c \<noteq> None \<Longrightarrow> literal_char c"
  by (auto simp: BinaryDigit_def literal_char_def split: if_splits)

lemma NonDecimal_numeric:
  assumes "NonDecimalIntegerLiteral t = Some v" and "c \<in> set t"
  shows "literal_char c"
proof -
  from assms(1) obtain c0 c1 rest where t: "t = c0 # c1 # rest"
    by (auto simp: NonDecimalIntegerLiteral_def split: list.splits)
  from assms(1) t have c0: "c0 = CHR ''0''"
    by (auto simp: NonDecimalIntegerLiteral_def split: if_splits)
  from assms(1) t c0 consider
      (hex) ds where "c1 = CHR ''x'' \<or> c1 = CHR ''X''" "all_digits HexDigit rest = Some ds"
    | (oct) ds where "c1 = CHR ''o'' \<or> c1 = CHR ''O''" "all_digits OctalDigit rest = Some ds"
    | (bin) ds where "c1 = CHR ''b'' \<or> c1 = CHR ''B''" "all_digits BinaryDigit rest = Some ds"
    by (auto simp: NonDecimalIntegerLiteral_def split: if_splits)
  then show ?thesis
  proof cases
    case hex
    have "literal_char c0" "literal_char c1" using c0 hex(1) by (auto simp: literal_char_def)
    moreover have "c \<in> set rest \<Longrightarrow> literal_char c"
      using all_digits_Some [OF hex(2)] HexDigit_numeric by blast
    ultimately show ?thesis using assms(2) t by auto
  next
    case oct
    have "literal_char c0" "literal_char c1" using c0 oct(1) by (auto simp: literal_char_def)
    moreover have "c \<in> set rest \<Longrightarrow> literal_char c"
      using all_digits_Some [OF oct(2)] OctalDigit_numeric by blast
    ultimately show ?thesis using assms(2) t by auto
  next
    case bin
    have "literal_char c0" "literal_char c1" using c0 bin(1) by (auto simp: literal_char_def)
    moreover have "c \<in> set rest \<Longrightarrow> literal_char c"
      using all_digits_Some [OF bin(2)] BinaryDigit_numeric by blast
    ultimately show ?thesis using assms(2) t by auto
  qed
qed

lemma ExponentPart_numeric:
  assumes "ExponentPart r = Some e" and "c \<in> set r"
  shows "literal_char c"
proof -
  from assms obtain x r' where r: "r = x # r'" by (cases r) auto
  from assms(1) r have x: "x = CHR ''e'' \<or> x = CHR ''E''"
    by (auto simp: ExponentPart_def split: if_splits)
  from assms(1) r x obtain y ds where r': "r' = y # ds"
    by (cases r') (auto simp: ExponentPart_def)
  from assms(1) r x r' consider
      (sign) d where "y = CHR ''+'' \<or> y = CHR ''-''" "all_digits DecimalDigit ds = Some d"
    | (nosign) d where "all_digits DecimalDigit r' = Some d"
    by (auto simp: ExponentPart_def split: if_splits)
  then show ?thesis
  proof cases
    case sign
    have "literal_char x" "literal_char y" using x sign(1) by (auto simp: literal_char_def)
    moreover have "c \<in> set ds \<Longrightarrow> literal_char c"
      using all_digits_Some [OF sign(2)] DecimalDigit_numeric by blast
    ultimately show ?thesis using assms(2) r r' by auto
  next
    case nosign
    have "literal_char x" using x by (auto simp: literal_char_def)
    moreover have "c \<in> set r' \<Longrightarrow> literal_char c"
      using all_digits_Some [OF nosign] DecimalDigit_numeric by blast
    ultimately show ?thesis using assms(2) r by auto
  qed
qed

lemma takeWhile_is_dec_numeric: "c \<in> set (takeWhile is_dec s) \<Longrightarrow> literal_char c"
  using DecimalDigit_numeric by (auto dest!: set_takeWhileD simp: is_dec_def)

lemma split_is_dec: "c \<in> set s \<Longrightarrow> c \<in> set (takeWhile is_dec s) \<or> c \<in> set (dropWhile is_dec s)"
  by (metis Un_iff set_append takeWhile_dropWhile_id)

lemma Unsigned_numeric:
  assumes "StrUnsignedDecimalLiteral s = Some v" and "c \<in> set s"
  shows "literal_char c"
proof -
  define r1 where "r1 = dropWhile is_dec s"
  define has_dot where "has_dot \<longleftrightarrow> r1 \<noteq> [] \<and> hd r1 = CHR ''.''"
  define r2 where "r2 = (if has_dot then dropWhile is_dec (tl r1) else r1)"
  from assms(1) obtain e where e: "ExponentPart r2 = Some e"
    by (auto simp: StrUnsignedDecimalLiteral_def Let_def r1_def has_dot_def r2_def
             split: if_splits option.splits)
  have r2: "\<And>x. x \<in> set r2 \<Longrightarrow> literal_char x"
    using ExponentPart_numeric [OF e] .
  have r1: "\<And>x. x \<in> set r1 \<Longrightarrow> literal_char x"
  proof -
    fix x assume x: "x \<in> set r1"
    show "literal_char x"
    proof (cases has_dot)
      case False
      then show ?thesis using x r2 by (simp add: r2_def)
    next
      case True
      then obtain rest where r1': "r1 = CHR ''.'' # rest"
        by (cases r1) (auto simp: has_dot_def)
      have "literal_char CHR ''.''" by (simp add: literal_char_def)
      moreover have "x \<in> set rest \<Longrightarrow> literal_char x"
        using split_is_dec [of x rest] takeWhile_is_dec_numeric r2 True r1'
        by (auto simp: r2_def)
      ultimately show ?thesis using x r1' by auto
    qed
  qed
  show ?thesis
    using split_is_dec [OF assms(2)] takeWhile_is_dec_numeric r1 by (auto simp: r1_def)
qed

lemma Decimal_numeric:
  assumes "StrDecimalLiteral t \<noteq> NaN" and "c \<in> set t"
  shows "literal_char c"
proof -
  define signed where "signed \<longleftrightarrow> t \<noteq> [] \<and> (hd t = CHR ''+'' \<or> hd t = CHR ''-'')"
  define body where "body = (if signed then tl t else t)"
  have body: "\<And>x. x \<in> set body \<Longrightarrow> literal_char x"
  proof -
    fix x assume x: "x \<in> set body"
    show "literal_char x"
    proof (cases "body = ''Infinity''")
      case True
      then show ?thesis using x by (auto simp: literal_char_def)
    next
      case False
      with assms(1) obtain v where "StrUnsignedDecimalLiteral body = Some v"
        by (auto simp: StrDecimalLiteral_def Let_def body_def signed_def split: option.splits if_splits)
      then show ?thesis using Unsigned_numeric x by blast
    qed
  qed
  show ?thesis
  proof (cases signed)
    case False
    then show ?thesis using body assms(2) by (simp add: body_def)
  next
    case True
    then obtain sg rest where t: "t = sg # rest" and sg: "sg = CHR ''+'' \<or> sg = CHR ''-''"
      by (cases t) (auto simp: signed_def)
    have "literal_char sg" using sg by (auto simp: literal_char_def)
    then show ?thesis using body assms(2) t True by (auto simp: body_def)
  qed
qed

lemma trim_ws_keeps:
  assumes "c \<in> set s" and "\<not> StrWhiteSpaceChar c"
  shows "c \<in> set (trim_ws s)"
proof -
  have a: "c \<in> set (dropWhile StrWhiteSpaceChar s)"
    using assms by (metis Un_iff set_append set_takeWhileD takeWhile_dropWhile_id)
  then have "c \<in> set (rev (dropWhile StrWhiteSpaceChar s))" by simp
  then have "c \<in> set (dropWhile StrWhiteSpaceChar (rev (dropWhile StrWhiteSpaceChar s)))"
    using assms(2) by (metis Un_iff set_append set_takeWhileD takeWhile_dropWhile_id)
  then show ?thesis by (simp add: trim_ws_def)
qed

lemma StringToNumber_blank:
  assumes "list_all StrWhiteSpaceChar s"
  shows "StringToNumber s = Num 0"
proof -
  have "dropWhile StrWhiteSpaceChar s = []"
    using assms by (induction s) simp_all
  then have "trim_ws s = []"
    unfolding trim_ws_def by (simp only: rev.simps dropWhile.simps)
  then show ?thesis by (simp add: StringToNumber_def)
qed

subsection \<open>The conversion accepts exactly the numeric literals\<close>

lemmas grammar_defs = splits_def one_or_more_def is_DecimalDigits_def is_HexDigits_def
  is_OctalDigits_def is_BinaryDigits_def is_SignedInteger_def is_ExponentPart_def
  is_Mantissa_def is_StrUnsignedDecimalLiteral_def is_StrDecimalLiteral_def
  is_NonDecimalIntegerLiteral_def is_StrNumericLiteral_def numeric_text_def
  non_numeric_cell_def StrWhiteSpaceChar_def


lemma splits_ex: "list_ex P (splits s) \<longleftrightarrow> (\<exists>a b. s = a @ b \<and> P (a, b))"
proof
  assume "list_ex P (splits s)"
  then obtain x where "x \<in> set (splits s)" and px: "P x"
    by (auto simp: list_ex_iff)
  then obtain i where "x = (take i s, drop i s)"
    unfolding splits_def by (auto simp del: upt_Suc)
  with px have "P (take i s, drop i s)" by simp
  moreover have "s = take i s @ drop i s" by simp
  ultimately show "\<exists>a b. s = a @ b \<and> P (a, b)" by blast
next
  assume "\<exists>a b. s = a @ b \<and> P (a, b)"
  then obtain a b where s: "s = a @ b" and p: "P (a, b)" by blast
  have "length a \<in> set [0..<Suc (length s)]" using s by simp
  moreover have "(take (length a) s, drop (length a) s) = (a, b)" using s by simp
  ultimately show "list_ex P (splits s)"
    unfolding splits_def list_ex_iff using p by (metis (no_types, lifting) image_eqI set_map)
qed

lemma those_map_Some: "those (map f s) \<noteq> None \<longleftrightarrow> (\<forall>c \<in> set s. f c \<noteq> None)"
  by (induction s) (auto split: option.splits)

lemma DecimalDigit_iff: "DecimalDigit c \<noteq> None \<longleftrightarrow> c \<in> set ''0123456789''"
  by (simp add: DecimalDigit_def)

lemma HexDigit_iff: "HexDigit c \<noteq> None \<longleftrightarrow> c \<in> set ''0123456789abcdefABCDEF''"
  by (simp add: HexDigit_def)

lemma OctalDigit_iff: "OctalDigit c \<noteq> None \<longleftrightarrow> c \<in> set ''01234567''"
  by (simp add: OctalDigit_def)

lemma BinaryDigit_iff: "BinaryDigit c \<noteq> None \<longleftrightarrow> c \<in> set ''01''"
  by (simp add: BinaryDigit_def)

lemma all_digits_Decimal: "all_digits DecimalDigit s \<noteq> None \<longleftrightarrow> is_DecimalDigits s"
  unfolding all_digits_def is_DecimalDigits_def one_or_more_def list_all_iff
  using those_map_Some [of DecimalDigit s] DecimalDigit_iff by auto

lemma all_digits_Hex: "all_digits HexDigit s \<noteq> None \<longleftrightarrow> is_HexDigits s"
  unfolding all_digits_def is_HexDigits_def one_or_more_def list_all_iff
  using those_map_Some [of HexDigit s] HexDigit_iff by auto

lemma all_digits_Octal: "all_digits OctalDigit s \<noteq> None \<longleftrightarrow> is_OctalDigits s"
  unfolding all_digits_def is_OctalDigits_def one_or_more_def list_all_iff
  using those_map_Some [of OctalDigit s] OctalDigit_iff by auto

lemma all_digits_Binary: "all_digits BinaryDigit s \<noteq> None \<longleftrightarrow> is_BinaryDigits s"
  unfolding all_digits_def is_BinaryDigits_def one_or_more_def list_all_iff
  using those_map_Some [of BinaryDigit s] BinaryDigit_iff by auto

lemma is_dec_iff: "is_dec c \<longleftrightarrow> c \<in> set ''0123456789''"
  unfolding is_dec_def by (rule DecimalDigit_iff)

lemma DecimalDigits_is_dec: "is_DecimalDigits s \<longleftrightarrow> s \<noteq> [] \<and> list_all is_dec s"
  by (simp add: is_DecimalDigits_def one_or_more_def list_all_iff is_dec_iff)

lemma sign_not_digits: "c = CHR ''+'' \<or> c = CHR ''-'' \<Longrightarrow> \<not> is_DecimalDigits (c # ds)"
  by (auto simp: is_DecimalDigits_def one_or_more_def)

lemma NonDecimal_iff:
  "NonDecimalIntegerLiteral t \<noteq> None \<longleftrightarrow> is_NonDecimalIntegerLiteral t"
proof (cases t)
  case Nil
  then show ?thesis
    by (simp add: NonDecimalIntegerLiteral_def is_NonDecimalIntegerLiteral_def)
next
  case (Cons c0 r)
  show ?thesis
  proof (cases r)
    case Nil
    with Cons show ?thesis
      by (simp add: NonDecimalIntegerLiteral_def is_NonDecimalIntegerLiteral_def)
  next
    case (Cons c1 ds)
    have h: "map_option f x \<noteq> None \<longleftrightarrow> x \<noteq> None" for f :: "nat list \<Rightarrow> real" and x
      by simp
    show ?thesis
      unfolding \<open>t = c0 # r\<close> Cons NonDecimalIntegerLiteral_def is_NonDecimalIntegerLiteral_def
      using all_digits_Hex [of ds] all_digits_Octal [of ds] all_digits_Binary [of ds]
      by (auto simp del: not_None_eq)
  qed
qed

lemma ExponentPart_iff: "ExponentPart r \<noteq> None \<longleftrightarrow> r = [] \<or> is_ExponentPart r"
proof (cases r)
  case Nil
  then show ?thesis by (simp add: ExponentPart_def)
next
  case (Cons e r')
  show ?thesis
  proof (cases r')
    case Nil
    with Cons show ?thesis
      by (simp add: ExponentPart_def is_ExponentPart_def is_SignedInteger_def
          is_DecimalDigits_def one_or_more_def)
  next
    case (Cons c ds)
    show ?thesis
      unfolding \<open>r = e # r'\<close> Cons ExponentPart_def is_ExponentPart_def is_SignedInteger_def
      using all_digits_Decimal [of ds] all_digits_Decimal [of "c # ds"]
        sign_not_digits [of c ds]
      by (auto simp del: not_None_eq)
  qed
qed

lemma Mantissa_split:
  "is_Mantissa m \<longleftrightarrow>
     is_DecimalDigits m \<or>
     (\<exists>ip r. m = ip @ r \<and>
        (case r of [] \<Rightarrow> False
         | c # fp \<Rightarrow> c = CHR ''.'' \<and>
             (is_DecimalDigits ip \<and> (fp = [] \<or> is_DecimalDigits fp) \<or>
              ip = [] \<and> is_DecimalDigits fp)))"
  unfolding is_Mantissa_def splits_ex by (simp only: prod.case)

lemma dot_split:
  "(\<exists>ip r. m = ip @ r \<and> (case r of [] \<Rightarrow> False | c # fp \<Rightarrow> c = CHR ''.'' \<and> Q ip fp)) \<longleftrightarrow>
   (\<exists>ip fp. m = ip @ CHR ''.'' # fp \<and> Q ip fp)"
proof
  assume "\<exists>ip r. m = ip @ r \<and> (case r of [] \<Rightarrow> False | c # fp \<Rightarrow> c = CHR ''.'' \<and> Q ip fp)"
  then obtain ip r where a: "m = ip @ r"
    and b: "case r of [] \<Rightarrow> False | c # fp \<Rightarrow> c = CHR ''.'' \<and> Q ip fp" by blast
  from b obtain fp where "r = CHR ''.'' # fp" and "Q ip fp"
    by (cases r) auto
  with a show "\<exists>ip fp. m = ip @ CHR ''.'' # fp \<and> Q ip fp" by blast
next
  assume "\<exists>ip fp. m = ip @ CHR ''.'' # fp \<and> Q ip fp"
  then obtain ip fp where "m = ip @ CHR ''.'' # fp" and "Q ip fp" by blast
  then have "m = ip @ (CHR ''.'' # fp) \<and>
             (case CHR ''.'' # fp of [] \<Rightarrow> False | c # fp \<Rightarrow> c = CHR ''.'' \<and> Q ip fp)"
    by simp
  then show "\<exists>ip r. m = ip @ r \<and> (case r of [] \<Rightarrow> False | c # fp \<Rightarrow> c = CHR ''.'' \<and> Q ip fp)"
    by blast
qed

lemma digits_around_dot:
  "(is_DecimalDigits ip \<and> (fp = [] \<or> is_DecimalDigits fp) \<or> ip = [] \<and> is_DecimalDigits fp) \<longleftrightarrow>
   (list_all is_dec ip \<and> list_all is_dec fp \<and> (ip \<noteq> [] \<or> fp \<noteq> []))"
  unfolding DecimalDigits_is_dec by (cases "ip = []"; cases "fp = []") simp_all

lemma Mantissa_iff:
  "is_Mantissa m \<longleftrightarrow>
     (m \<noteq> [] \<and> list_all is_dec m) \<or>
     (\<exists>ip fp. m = ip @ CHR ''.'' # fp \<and> list_all is_dec ip \<and> list_all is_dec fp \<and>
        (ip \<noteq> [] \<or> fp \<noteq> []))"
proof -
  have "is_Mantissa m \<longleftrightarrow>
        is_DecimalDigits m \<or>
        (\<exists>ip fp. m = ip @ CHR ''.'' # fp \<and> list_all is_dec ip \<and> list_all is_dec fp \<and>
           (ip \<noteq> [] \<or> fp \<noteq> []))"
    by (simp only: Mantissa_split dot_split digits_around_dot)
  then show ?thesis by (simp only: DecimalDigits_is_dec)
qed

lemma span_is_dec:
  assumes "list_all is_dec a" and "b = [] \<or> \<not> is_dec (hd b)"
  shows "takeWhile is_dec (a @ b) = a" and "dropWhile is_dec (a @ b) = b"
proof -
  have t: "takeWhile is_dec b = []" using assms(2) by (cases b) auto
  have d: "dropWhile is_dec b = b" using assms(2) by (cases b) auto
  show "takeWhile is_dec (a @ b) = a"
    using assms(1) t by (simp add: list_all_iff)
  show "dropWhile is_dec (a @ b) = b"
    using assms(1) d by (simp add: list_all_iff)
qed


lemma dot_not_dec: "\<not> is_dec CHR ''.''"
  by (simp add: is_dec_iff)


lemma ExponentPart_head:
  "is_ExponentPart ex \<Longrightarrow> ex \<noteq> [] \<and> \<not> is_dec (hd ex) \<and> hd ex \<noteq> CHR ''.''"
  by (cases ex) (auto simp: is_ExponentPart_def is_dec_iff)


lemma Unsigned_parse_iff:
  "StrUnsignedDecimalLiteral s \<noteq> None \<longleftrightarrow>
     (\<exists>m ex. s = m @ ex \<and> is_Mantissa m \<and> (ex = [] \<or> is_ExponentPart ex))"
proof
  assume ok: "StrUnsignedDecimalLiteral s \<noteq> None"
  define ip where "ip = takeWhile is_dec s"
  define r1 where "r1 = dropWhile is_dec s"
  define has_dot where "has_dot \<longleftrightarrow> r1 \<noteq> [] \<and> hd r1 = CHR ''.''"
  define fp where "fp = (if has_dot then takeWhile is_dec (tl r1) else [])"
  define r2 where "r2 = (if has_dot then dropWhile is_dec (tl r1) else r1)"
  have s: "s = ip @ r1" by (simp add: ip_def r1_def)
  have ip: "list_all is_dec ip" by (auto simp: ip_def list_all_iff dest: set_takeWhileD)
  have fpd: "list_all is_dec fp" by (auto simp: fp_def list_all_iff dest: set_takeWhileD)
  from ok have ne: "\<not> (ip = [] \<and> fp = [])" and ex: "ExponentPart r2 \<noteq> None"
    by (auto simp: StrUnsignedDecimalLiteral_def Let_def ip_def r1_def has_dot_def fp_def r2_def
             split: if_splits option.splits)
  have ex': "r2 = [] \<or> is_ExponentPart r2" using ex ExponentPart_iff by blast
  show "\<exists>m ex. s = m @ ex \<and> is_Mantissa m \<and> (ex = [] \<or> is_ExponentPart ex)"
  proof (cases has_dot)
    case True
    then obtain rest where r1': "r1 = CHR ''.'' # rest"
      by (cases r1) (auto simp: has_dot_def)
    have "rest = fp @ r2" using True r1' by (simp add: fp_def r2_def)
    then have "s = (ip @ CHR ''.'' # fp) @ r2" using s r1' by simp
    moreover have "is_Mantissa (ip @ CHR ''.'' # fp)"
      unfolding Mantissa_iff using ip fpd ne by blast
    ultimately show ?thesis using ex' by blast
  next
    case False
    then have "fp = []" and "r2 = r1" by (simp_all add: fp_def r2_def)
    then have "ip \<noteq> []" and "s = ip @ r2" using ne s by simp_all
    moreover have "is_Mantissa ip"
      unfolding Mantissa_iff using ip \<open>ip \<noteq> []\<close> by blast
    ultimately show ?thesis using ex' by blast
  qed
next
  assume "\<exists>m ex. s = m @ ex \<and> is_Mantissa m \<and> (ex = [] \<or> is_ExponentPart ex)"
  then obtain m ex where s: "s = m @ ex" and m: "is_Mantissa m"
    and ex: "ex = [] \<or> is_ExponentPart ex" by blast
  have exh: "ex = [] \<or> \<not> is_dec (hd ex)" and exd: "ex = [] \<or> hd ex \<noteq> CHR ''.''"
    using ex ExponentPart_head by blast+
  have exp: "ExponentPart ex \<noteq> None" using ex ExponentPart_iff by blast
  from m consider
      (digits) "m \<noteq> []" "list_all is_dec m"
    | (dot) ip fp where "m = ip @ CHR ''.'' # fp" "list_all is_dec ip" "list_all is_dec fp"
        "ip \<noteq> [] \<or> fp \<noteq> []"
    unfolding Mantissa_iff by blast
  then show "StrUnsignedDecimalLiteral s \<noteq> None"
  proof cases
    case digits
    have t: "takeWhile is_dec s = m" and d: "dropWhile is_dec s = ex"
      unfolding s using span_is_dec [OF digits(2) exh] by simp_all
    show ?thesis
      using digits(1) exp exd
      by (auto simp: StrUnsignedDecimalLiteral_def Let_def t d)
  next
    case dot
    have s': "s = ip @ (CHR ''.'' # fp @ ex)" using s dot(1) by simp
    have t: "takeWhile is_dec s = ip" and d: "dropWhile is_dec s = CHR ''.'' # fp @ ex"
      unfolding s' using span_is_dec [OF dot(2), of "CHR ''.'' # fp @ ex"] dot_not_dec
      by simp_all
    have t2: "takeWhile is_dec (fp @ ex) = fp" and d2: "dropWhile is_dec (fp @ ex) = ex"
      using span_is_dec [OF dot(3) exh] by simp_all
    show ?thesis
      using dot(4) exp
      by (auto simp: StrUnsignedDecimalLiteral_def Let_def t d t2 d2)
  qed
qed

lemma Unsigned_iff:
  "is_StrUnsignedDecimalLiteral b \<longleftrightarrow> b = ''Infinity'' \<or> StrUnsignedDecimalLiteral b \<noteq> None"
  unfolding is_StrUnsignedDecimalLiteral_def splits_ex Unsigned_parse_iff by simp


lemma Unsigned_parse_head:
  assumes "StrUnsignedDecimalLiteral t \<noteq> None"
  shows "t \<noteq> [] \<and> hd t \<noteq> CHR ''+'' \<and> hd t \<noteq> CHR ''-''"
proof -
  from assms obtain m ex where t: "t = m @ ex" and m: "is_Mantissa m"
    unfolding Unsigned_parse_iff by blast
  from m have "m \<noteq> [] \<and> (is_dec (hd m) \<or> hd m = CHR ''.'')"
    unfolding Mantissa_iff by (cases m) (auto simp: Cons_eq_append_conv)
  then show ?thesis using t by (cases m) (auto simp: is_dec_iff)
qed


lemma Unsigned_head:
  "is_StrUnsignedDecimalLiteral t \<Longrightarrow> t \<noteq> [] \<and> hd t \<noteq> CHR ''+'' \<and> hd t \<noteq> CHR ''-''"
  unfolding Unsigned_iff using Unsigned_parse_head by auto


lemma Decimal_iff: "StrDecimalLiteral t \<noteq> NaN \<longleftrightarrow> is_StrDecimalLiteral t"
proof -
  define signed where "signed \<longleftrightarrow> t \<noteq> [] \<and> (hd t = CHR ''+'' \<or> hd t = CHR ''-'')"
  define body where "body = (if signed then tl t else t)"
  have p: "StrDecimalLiteral t \<noteq> NaN \<longleftrightarrow> is_StrUnsignedDecimalLiteral body"
    unfolding Unsigned_iff
    by (auto simp: StrDecimalLiteral_def Let_def body_def signed_def split: option.splits)
  show ?thesis
  proof (cases signed)
    case True
    then obtain c r where t: "t = c # r" and c: "c = CHR ''+'' \<or> c = CHR ''-''"
      by (cases t) (auto simp: signed_def)
    have "\<not> is_StrUnsignedDecimalLiteral t" using Unsigned_head [of t] t c by auto
    then have "is_StrDecimalLiteral t \<longleftrightarrow> is_StrUnsignedDecimalLiteral r"
      using t c by (simp add: is_StrDecimalLiteral_def)
    moreover have "body = r" using True t by (simp add: body_def)
    ultimately show ?thesis using p by simp
  next
    case False
    then have "is_StrDecimalLiteral t \<longleftrightarrow> is_StrUnsignedDecimalLiteral t"
      by (cases t) (auto simp: is_StrDecimalLiteral_def signed_def)
    moreover have "body = t" using False by (simp add: body_def)
    ultimately show ?thesis using p by simp
  qed
qed

lemma literal_char_not_ws: "literal_char c \<Longrightarrow> \<not> StrWhiteSpaceChar c"
  by (auto simp: literal_char_def StrWhiteSpaceChar_def)

lemma Literal_parse_iff:
  "is_StrNumericLiteral t \<longleftrightarrow>
     NonDecimalIntegerLiteral t \<noteq> None \<or> StrDecimalLiteral t \<noteq> NaN"
  unfolding is_StrNumericLiteral_def Decimal_iff NonDecimal_iff by blast

lemma Literal_chars:
  assumes "is_StrNumericLiteral t"
  shows "t \<noteq> []" and "\<And>c. c \<in> set t \<Longrightarrow> literal_char c"
proof -
  have d: "StrDecimalLiteral [] = NaN"
    by (simp add: StrDecimalLiteral_def StrUnsignedDecimalLiteral_def)
  have n: "NonDecimalIntegerLiteral [] = None"
    by (simp add: NonDecimalIntegerLiteral_def)
  from assms d n show "t \<noteq> []"
    unfolding Literal_parse_iff by auto
  fix c assume c: "c \<in> set t"
  from assms consider (nd) v where "NonDecimalIntegerLiteral t = Some v"
    | (dec) "StrDecimalLiteral t \<noteq> NaN"
    unfolding Literal_parse_iff by auto
  then show "literal_char c"
  proof cases
    case nd
    then show ?thesis using NonDecimal_numeric c by blast
  next
    case dec
    then show ?thesis using Decimal_numeric c by blast
  qed
qed

lemma trim_ws_decomp:
  "\<exists>a b. s = a @ trim_ws s @ b \<and> list_all StrWhiteSpaceChar a \<and> list_all StrWhiteSpaceChar b"
proof -
  define u where "u = dropWhile StrWhiteSpaceChar s"
  define a where "a = takeWhile StrWhiteSpaceChar s"
  define b where "b = rev (takeWhile StrWhiteSpaceChar (rev u))"
  have t: "trim_ws s = rev (dropWhile StrWhiteSpaceChar (rev u))"
    by (simp add: trim_ws_def u_def)
  have "rev u = takeWhile StrWhiteSpaceChar (rev u) @ dropWhile StrWhiteSpaceChar (rev u)"
    by simp
  then have "rev (rev u) =
             rev (takeWhile StrWhiteSpaceChar (rev u) @ dropWhile StrWhiteSpaceChar (rev u))"
    by (rule arg_cong)
  then have u: "u = trim_ws s @ b"
    unfolding t b_def by (simp only: rev_rev_ident rev_append)
  have "s = a @ u" by (simp add: a_def u_def)
  then have "s = a @ trim_ws s @ b" using u by simp
  moreover have "list_all StrWhiteSpaceChar a"
    by (auto simp: a_def list_all_iff dest: set_takeWhileD)
  moreover have "list_all StrWhiteSpaceChar b"
    by (auto simp: b_def list_all_iff dest: set_takeWhileD)
  ultimately show ?thesis by blast
qed

lemma dropWhile_keep: "t \<noteq> [] \<Longrightarrow> \<not> P (hd t) \<Longrightarrow> dropWhile P (t @ b) = t @ b"
  by (cases t) simp_all

lemma trim_ws_sandwich:
  assumes a: "list_all StrWhiteSpaceChar a" and b: "list_all StrWhiteSpaceChar b"
    and t: "t \<noteq> []" and h: "\<not> StrWhiteSpaceChar (hd t)" and l: "\<not> StrWhiteSpaceChar (last t)"
  shows "trim_ws (a @ t @ b) = t"
proof -
  have 1: "dropWhile StrWhiteSpaceChar (a @ t @ b) = t @ b"
    using a dropWhile_keep [of t StrWhiteSpaceChar b] t h
    by (simp add: list_all_iff)
  have rt: "rev t \<noteq> []" and rh: "\<not> StrWhiteSpaceChar (hd (rev t))"
    using t l by (simp_all add: hd_rev)
  have rb: "\<And>x. x \<in> set (rev b) \<Longrightarrow> StrWhiteSpaceChar x"
    using b by (simp add: list_all_iff)
  have "dropWhile StrWhiteSpaceChar (rev b @ rev t) = dropWhile StrWhiteSpaceChar (rev t)"
    by (rule dropWhile_append2) (rule rb)
  also have "\<dots> = rev t"
    using dropWhile_keep [of "rev t" StrWhiteSpaceChar "[]"] rt rh by simp
  finally have 2: "dropWhile StrWhiteSpaceChar (rev (t @ b)) = rev t" by simp
  show ?thesis
    unfolding trim_ws_def 1 2 by simp
qed

lemma trim_ws_Nil_iff: "trim_ws s = [] \<longleftrightarrow> list_all StrWhiteSpaceChar s"
proof
  assume "trim_ws s = []"
  then show "list_all StrWhiteSpaceChar s"
    using trim_ws_decomp [of s] by auto
next
  assume "list_all StrWhiteSpaceChar s"
  then have "dropWhile StrWhiteSpaceChar s = []"
    by (induction s) simp_all
  then show "trim_ws s = []"
    unfolding trim_ws_def by (simp only: rev.simps dropWhile.simps)
qed

lemma numeric_text_ex:
  "numeric_text s \<longleftrightarrow>
     (\<exists>a t b. s = a @ t @ b \<and> list_all StrWhiteSpaceChar a \<and> is_StrNumericLiteral t \<and>
        list_all StrWhiteSpaceChar b)"
proof -
  have "numeric_text s \<longleftrightarrow>
        (\<exists>a r. s = a @ r \<and> list_all StrWhiteSpaceChar a \<and>
           (\<exists>t b. r = t @ b \<and> is_StrNumericLiteral t \<and> list_all StrWhiteSpaceChar b))"
    unfolding numeric_text_def splits_ex by (simp only: prod.case)
  also have "\<dots> \<longleftrightarrow>
        (\<exists>a t b. s = a @ t @ b \<and> list_all StrWhiteSpaceChar a \<and> is_StrNumericLiteral t \<and>
           list_all StrWhiteSpaceChar b)"
    by blast
  finally show ?thesis .
qed

lemma numeric_text_trim:
  assumes "trim_ws s \<noteq> []"
  shows "numeric_text s \<longleftrightarrow> is_StrNumericLiteral (trim_ws s)"
proof
  assume "numeric_text s"
  then obtain a t b where s: "s = a @ t @ b" and a: "list_all StrWhiteSpaceChar a"
    and t: "is_StrNumericLiteral t" and b: "list_all StrWhiteSpaceChar b"
    unfolding numeric_text_ex by blast
  have ne: "t \<noteq> []" using Literal_chars(1) [OF t] .
  have "hd t \<in> set t" and "last t \<in> set t" using ne by simp_all
  then have "\<not> StrWhiteSpaceChar (hd t)" and "\<not> StrWhiteSpaceChar (last t)"
    using Literal_chars(2) [OF t] literal_char_not_ws by blast+
  then have "trim_ws s = t"
    unfolding s using trim_ws_sandwich [OF a b ne] by blast
  then show "is_StrNumericLiteral (trim_ws s)" using t by simp
next
  assume "is_StrNumericLiteral (trim_ws s)"
  then show "numeric_text s"
    unfolding numeric_text_ex using trim_ws_decomp [of s] by blast
qed

lemma StringToNumber_NaN_iff:
  "StringToNumber s = NaN \<longleftrightarrow> \<not> list_all StrWhiteSpaceChar s \<and> \<not> numeric_text s"
proof (cases "trim_ws s = []")
  case True
  then have "StringToNumber s = Num 0" by (simp add: StringToNumber_def)
  moreover have "list_all StrWhiteSpaceChar s" using True trim_ws_Nil_iff by blast
  ultimately show ?thesis by simp
next
  case False
  have "StringToNumber s = NaN \<longleftrightarrow>
        \<not> (NonDecimalIntegerLiteral (trim_ws s) \<noteq> None \<or> StrDecimalLiteral (trim_ws s) \<noteq> NaN)"
    using False by (auto simp: StringToNumber_def Let_def split: option.splits)
  also have "\<dots> \<longleftrightarrow> \<not> numeric_text s"
    unfolding numeric_text_trim [OF False] Literal_parse_iff ..
  finally show ?thesis
    using False trim_ws_Nil_iff by blast
qed

lemma unary_plus_NaN_iff: "unary_plus v = NaN \<longleftrightarrow> non_numeric_cell v"
  by (cases v) (simp_all add: unary_plus_def non_numeric_cell_def StringToNumber_NaN_iff)

lemma unary_plus_blank: "blank_cell v \<Longrightarrow> unary_plus v = Num 0"
  by (cases v) (auto simp: blank_cell_def unary_plus_def intro: StringToNumber_blank)

lemma yearData_no_NaN: "d_year d = NaN \<Longrightarrow> d \<notin> set (yearData year ds)"
  by (simp add: yearData_def)

lemma parseCSV_fields:
  "d_latitude (parseCSV dp yf data) = unary_plus (data ''Latitude'')"
  "d_longitude (parseCSV dp yf data) = unary_plus (data ''Longitude'')"
  "d_victims (parseCSV dp yf data) = unary_plus (data ''Total Number of Victims'')"
  "d_year (parseCSV dp yf data) = getFullYear yf (new_Date dp (data ''Date''))"
  by (simp_all add: parseCSV_def Let_def)

lemma parseCSV_row_good:
  "parseCSV example_Date_parse example_YearFromLocalTime row_good = incident_A"
  by (simp add: parseCSV_def Let_def row_good_def incident_A_def unary_plus_def new_Date_def
      getFullYear_def example_Date_parse_def example_YearFromLocalTime_def parser_defs)

lemma non_numeric_examples:
  "non_numeric_cell None \<and> non_numeric_cell (Some ''abc'') \<and> non_numeric_cell (Some ''-'') \<and>
   non_numeric_cell (Some ''none'') \<and> non_numeric_cell (Some ''N/A'') \<and>
   non_numeric_cell (Some ''4 0'') \<and> non_numeric_cell (Some ''40.1-40.2'')"
  by (simp add: grammar_defs upt_rec)

lemma numeric_examples:
  "\<not> non_numeric_cell (Some '' -1.5e2 '') \<and> \<not> non_numeric_cell (Some ''0x1F'') \<and>
   \<not> non_numeric_cell (Some ''.5'') \<and> \<not> non_numeric_cell (Some ''+Infinity'') \<and>
   \<not> non_numeric_cell (Some [])"
  by (simp add: grammar_defs upt_rec)

text \<open>
  Claim C7, as amended. \<open>parseCSV\<close> returns a record for every row and \<open>csv_rows\<close>
  keeps one record per row, so no row aborts the batch. A coordinate or casualty cell
  is parsed to NaN exactly when it is non-numeric, that is, when its column is missing
  or its text is neither blank nor a numeric literal with white space around it. A cell
  that is empty or holds only white space is parsed to 0, not to NaN. A row whose date
  is unparseable gets the year NaN, which is loosely equal to no year: the record is in
  no \<open>yearData\<close> and is bound to no circle after \<open>updateMap\<close>.
\<close>

theorem parseCSV_malformed_row:
  "length (csv_rows Date_parse YearFromLocalTime rows) = length rows \<and>
   (d_latitude (parseCSV Date_parse YearFromLocalTime data) = NaN \<longleftrightarrow>
      non_numeric_cell (data ''Latitude'')) \<and>
   (d_longitude (parseCSV Date_parse YearFromLocalTime data) = NaN \<longleftrightarrow>
      non_numeric_cell (data ''Longitude'')) \<and>
   (d_victims (parseCSV Date_parse YearFromLocalTime data) = NaN \<longleftrightarrow>
      non_numeric_cell (data ''Total Number of Victims'')) \<and>
   (blank_cell (data ''Latitude'') \<longrightarrow>
      d_latitude (parseCSV Date_parse YearFromLocalTime data) = Num 0) \<and>
   (blank_cell (data ''Longitude'') \<longrightarrow>
      d_longitude (parseCSV Date_parse YearFromLocalTime data) = Num 0) \<and>
   (blank_cell (data ''Total Number of Victims'') \<longrightarrow>
      d_victims (parseCSV Date_parse YearFromLocalTime data) = Num 0) \<and>
   (new_Date Date_parse (data ''Date'') = None \<longrightarrow>
      d_year (parseCSV Date_parse YearFromLocalTime data) = NaN \<and>
      parseCSV Date_parse YearFromLocalTime data \<notin> set (yearData year allData) \<and>
      parseCSV Date_parse YearFromLocalTime data \<notin> datum ` set (circles (updateMap p year s)))"
proof -
  have y: "new_Date Date_parse (data ''Date'') = None \<Longrightarrow>
           d_year (parseCSV Date_parse YearFromLocalTime data) = NaN"
    by (simp add: parseCSV_fields getFullYear_def)
  have c: "datum ` set (circles (updateMap p year s)) = set (yearData year (shootingsData s))"
    using datum_updateMap [of p year s] by (metis set_map)
  show ?thesis
    using y yearData_no_NaN [of "parseCSV Date_parse YearFromLocalTime data"]
    by (simp add: csv_rows_def parseCSV_fields unary_plus_NaN_iff unary_plus_blank c)
qed

theorem parseCSV_malformed_row_witness:
  "length (csv_rows example_Date_parse example_YearFromLocalTime
     [row_good, row_malformed, row_blank]) = 3 \<and>
   row_malformed ''Latitude'' = Some ''abc'' \<and>
   row_malformed ''Longitude'' = Some ''40.1-40.2'' \<and>
   row_malformed ''Total Number of Victims'' = None \<and>
   non_numeric_cell (row_malformed ''Latitude'') \<and>
   non_numeric_cell (row_malformed ''Longitude'') \<and>
   non_numeric_cell (row_malformed ''Total Number of Victims'') \<and>
   new_Date example_Date_parse (row_malformed ''Date'') = None \<and>
   d_latitude (parseCSV example_Date_parse example_YearFromLocalTime row_malformed) = NaN \<and>
   d_longitude (parseCSV example_Date_parse example_YearFromLocalTime row_malformed) = NaN \<and>
   d_victims (parseCSV example_Date_parse example_YearFromLocalTime row_malformed) = NaN \<and>
   d_year (parseCSV example_Date_parse example_YearFromLocalTime row_malformed) = NaN \<and>
   parseCSV example_Date_parse example_YearFromLocalTime row_malformed \<notin>
     set (yearData (JString ''2015'')
       [incident_A, parseCSV example_Date_parse example_YearFromLocalTime row_malformed]) \<and>
   blank_cell (row_blank ''Latitude'') \<and>
   blank_cell (row_blank ''Longitude'') \<and>
   blank_cell (row_blank ''Total Number of Victims'') \<and>
   d_latitude (parseCSV example_Date_parse example_YearFromLocalTime row_blank) = Num 0 \<and>
   d_longitude (parseCSV example_Date_parse example_YearFromLocalTime row_blank) = Num 0 \<and>
   d_victims (parseCSV example_Date_parse example_YearFromLocalTime row_blank) = Num 0"
proof -
  have r: "row_malformed ''Latitude'' = Some ''abc''"
          "row_malformed ''Longitude'' = Some ''40.1-40.2''"
          "row_malformed ''Total Number of Victims'' = None"
    by (simp_all add: row_malformed_def)
  have m: "non_numeric_cell (row_malformed ''Latitude'')"
          "non_numeric_cell (row_malformed ''Longitude'')"
          "non_numeric_cell (row_malformed ''Total Number of Victims'')"
    unfolding r by (simp_all add: grammar_defs upt_rec)
  have d: "new_Date example_Date_parse (row_malformed ''Date'') = None"
    by (simp add: row_malformed_def new_Date_def example_Date_parse_def)
  have b: "blank_cell (row_blank ''Latitude'')"
          "blank_cell (row_blank ''Longitude'')"
          "blank_cell (row_blank ''Total Number of Victims'')"
    by (simp_all add: row_blank_def blank_cell_def StrWhiteSpaceChar_def)
  show ?thesis
    using r m d b
      parseCSV_malformed_row [of example_Date_parse example_YearFromLocalTime
        "[row_good, row_malformed, row_blank]" row_malformed "JString ''2015''"
        "[incident_A, parseCSV example_Date_parse example_YearFromLocalTime row_malformed]"
        example_projection loaded_state]
      parseCSV_malformed_row [of example_Date_parse example_YearFromLocalTime
        "[row_good, row_malformed, row_blank]" row_blank "JString ''2015''"
        "[incident_A]" example_projection loaded_state]
    by simp
qed

text \<open>
  The claim as it stands fails on an empty cell: the latitude cell of \<open>row_blank\<close> holds
  no number, and its parsed latitude is 0, not NaN.
\<close>

theorem parseCSV_blank_latitude_counterexample:
  "row_blank ''Latitude'' = Some [] \<and>
   d_latitude (parseCSV example_Date_parse example_YearFromLocalTime row_blank) = Num 0 \<and>
   d_latitude (parseCSV example_Date_parse example_YearFromLocalTime row_blank) \<noteq> NaN"
  by (simp add: row_blank_def parseCSV_def Let_def unary_plus_def StringToNumber_def trim_ws_def)

end
